theory Spec2Isabelle
  imports Complex_Main "HOL-Library.Word"
begin

text \<open>
  A model of the DHCP client simulators \<open>client/dhcp_simulator.py\<close> (DHCPv4) and
  \<open>client/dhcpv6_simulator.py\<close> (DHCPv6), and theorems about their message codec, their
  receive loops, one client's transaction, the release path and the readiness gate.
  The older script \<open>dhcp4-client.py\<close> has the functions of the DHCPv4 simulator, word for
  word, without the readiness loop.

  What the scripts take from outside is an argument of the model: the numbers they draw,
  the clock, the events of each socket, the address conversions of the C library. Each
  function returns what the Python function returns or the exception that leaves it.
  Socket calls are taken to succeed; the thread pool is modelled as running one client
  after the other; signals are not modelled.
\<close>

section \<open>Bytes, Python errors and the struct module\<close>

text \<open>
  A Python \<open>bytes\<close> object is a list of octets. Exceptions are values: \<open>IndexError\<close> for an
  index out of range, \<open>StructError\<close> for \<open>struct.error\<close>, \<open>ValueError\<close> for
  \<open>bytes([n])\<close> with \<open>n\<close> outside \<open>range(256)\<close>, \<open>OSError\<close> for a failing call of the
  socket library.
\<close>

type_synonym byte = "8 word"
type_synonym bytes = "byte list"

datatype error = IndexError | StructError | ValueError | OSError

text \<open>\<open>data[i]\<close>: raises \<open>IndexError\<close> out of range (indices here are never negative).\<close>

definition index :: "bytes \<Rightarrow> nat \<Rightarrow> error + byte" where
  "index data i = (if i < length data then Inr (data ! i) else Inl IndexError)"

text \<open>\<open>data[a:b]\<close> for \<open>0 \<le> a\<close>: slicing never raises, it clips to the buffer.\<close>

definition slice :: "bytes \<Rightarrow> nat \<Rightarrow> nat \<Rightarrow> bytes" where
  "slice data a b = take (b - a) (drop a data)"

text \<open>\<open>bytes([n])\<close>.\<close>

definition bytes1 :: "int \<Rightarrow> error + bytes" where
  "bytes1 n = (if 0 \<le> n \<and> n < 256 then Inr [word_of_int n] else Inl ValueError)"

text \<open>
  \<open>struct.pack\<close> with the \<open>!\<close> prefix: network byte order, no padding. The format codes
  the program uses are \<open>B\<close> (1 octet), \<open>H\<close> (2 octets), \<open>I\<close> (4 octets), all unsigned and
  range-checked, and \<open>ns\<close> (a byte string cut or zero-padded to \<open>n\<close> octets).
\<close>

datatype fmt = FB | FH | FI | FS nat

datatype arg = AInt int | ABytes bytes

fun pack_field :: "fmt \<Rightarrow> arg \<Rightarrow> error + bytes" where
  "pack_field FB (AInt v) = (if 0 \<le> v \<and> v \<le> 255 then Inr [word_of_int v] else Inl StructError)"
| "pack_field FH (AInt v) =
     (if 0 \<le> v \<and> v \<le> 65535
      then Inr [word_of_int (v div 256), word_of_int (v mod 256)]
      else Inl StructError)"
| "pack_field FI (AInt v) =
     (if 0 \<le> v \<and> v \<le> 4294967295
      then Inr [word_of_int (v div 16777216), word_of_int (v div 65536 mod 256),
                word_of_int (v div 256 mod 256), word_of_int (v mod 256)]
      else Inl StructError)"
| "pack_field (FS n) (ABytes b) = Inr (take n b @ replicate (n - length b) 0)"
| "pack_field _ _ = Inl StructError"

fun struct_pack :: "fmt list \<Rightarrow> arg list \<Rightarrow> error + bytes" where
  "struct_pack [] [] = Inr []"
| "struct_pack (f # fs) (a # as) =
     (case pack_field f a of
        Inl e \<Rightarrow> Inl e
      | Inr b \<Rightarrow> (case struct_pack fs as of Inl e \<Rightarrow> Inl e | Inr bs \<Rightarrow> Inr (b @ bs)))"
| "struct_pack _ _ = Inl StructError"

text \<open>\<open>struct.unpack('!H', b)[0]\<close>: the buffer must hold exactly two octets.\<close>

definition unpack_H :: "bytes \<Rightarrow> error + nat" where
  "unpack_H b = (if length b = 2 then Inr (256 * unat (b ! 0) + unat (b ! 1)) else Inl StructError)"

section \<open>The network as seen by one socket\<close>

text \<open>
  A socket with a timeout delivers a sequence of events: a datagram with its source
  address, or \<open>socket.timeout\<close>. The list is the part of that sequence that is known; a
  receive loop that has used it up without returning is still waiting (\<open>Blocked\<close>).
  Of a source address only the host string \<open>addr[0]\<close> is ever read.
\<close>

type_synonym addr = "string \<times> nat"

datatype event = Datagram bytes addr | Timeout

datatype 'a res = Ok 'a | Raise error | Blocked

section \<open>DHCPv4: \<open>client/dhcp_simulator.py\<close>\<close>

text \<open>
  The option scan inside \<open>wait_for_msg\<close>:
  \<^verbatim>\<open>
  index = 240
  while index < len(data):
      if data[index] == 0xff: break
      if data[index] == 53 and data[index+2] == expected_type: return data, addr
      index += 2 + data[index+1]
  \<close>
  \<open>Inr True\<close> is the \<open>return\<close>, \<open>Inr False\<close> is leaving the loop without a match.
\<close>

function scan_options :: "bytes \<Rightarrow> nat \<Rightarrow> int \<Rightarrow> error + bool" where
  "scan_options data i expected_type =
     (if i < length data then
        if data ! i = 0xff then Inr False
        else if data ! i = 53 \<and> \<not> i + 2 < length data then Inl IndexError
        else if data ! i = 53 \<and> uint (data ! (i + 2)) = expected_type then Inr True
        else if \<not> i + 1 < length data then Inl IndexError
        else scan_options data (i + 2 + unat (data ! (i + 1))) expected_type
      else Inr False)"
  by pat_completeness auto
termination
  by (relation "measure (\<lambda>(data, i, t). length data - i)") auto

text \<open>
  \<open>wait_for_msg\<close>: \<open>recvfrom(1024)\<close> cuts a datagram to 1024 octets. A timeout returns
  \<open>(None, None)\<close>; only \<open>socket.timeout\<close> is caught, any other exception leaves the
  function. The result carries the events the socket has not delivered yet.
\<close>

fun wait_for_msg :: "int \<Rightarrow> int \<Rightarrow> event list \<Rightarrow> ((bytes \<times> addr) option \<times> event list) res" where
  "wait_for_msg xid expected_type [] = Blocked"
| "wait_for_msg xid expected_type (Timeout # evs) = Ok (None, evs)"
| "wait_for_msg xid expected_type (Datagram payload a # evs) =
     (let data = take 1024 payload in
      case struct_pack [FI] [AInt xid] of
        Inl e \<Rightarrow> Raise e
      | Inr x \<Rightarrow>
          if slice data 4 8 \<noteq> x then wait_for_msg xid expected_type evs
          else (case scan_options data 240 expected_type of
                  Inl e \<Rightarrow> Raise e
                | Inr True \<Rightarrow> Ok (Some (data, a), evs)
                | Inr False \<Rightarrow> wait_for_msg xid expected_type evs))"

text \<open>
  The C library's address conversions are not part of the program; they are taken as
  parameters. Each one raises \<open>OSError\<close> on an argument it rejects.
\<close>

record socket_lib =
  inet_aton :: "string \<Rightarrow> error + bytes"
  inet_ntoa :: "bytes \<Rightarrow> error + string"
  inet_pton :: "string \<Rightarrow> error + bytes"
  inet_ntop :: "bytes \<Rightarrow> error + string"

text \<open>
  The module globals \<open>clients\<close>, \<open>stats\<close> and \<open>stop_requested\<close>, and the datagrams handed
  to \<open>sendto\<close> so far, each with its destination.
\<close>

record 'l world =
  clients :: "'l list"
  success :: int
  failed :: int
  stop_requested :: bool
  sent :: "(bytes \<times> addr) list"

text \<open>Truth value of \<open>not x\<close> for \<open>x\<close> a received buffer or \<open>None\<close>.\<close>

fun not_data :: "(bytes \<times> addr) option \<Rightarrow> bool" where
  "not_data None = True"
| "not_data (Some (data, a)) = (data = [])"

text \<open>Truth value of a string or byte string that may be \<open>None\<close>.\<close>

fun truthy :: "'a list option \<Rightarrow> bool" where
  "truthy None = False"
| "truthy (Some s) = (s \<noteq> [])"

text \<open>\<open>random_mac\<close>, as a function of the four octets drawn.\<close>

definition random_mac :: "byte \<Rightarrow> byte \<Rightarrow> byte \<Rightarrow> byte \<Rightarrow> bytes" where
  "random_mac r2 r3 r4 r5 = [0x02, 0x00, r2, r3, r4, r5]"

definition build_bootp :: "int \<Rightarrow> int \<Rightarrow> bytes \<Rightarrow> int \<Rightarrow> error + bytes" where
  "build_bootp op yiaddr chaddr xid =
     struct_pack
       [FB, FB, FB, FB, FI, FH, FH, FI, FI, FI, FI, FS 16, FS 64, FS 128, FI]
       [AInt op, AInt 1, AInt 6, AInt 0, AInt xid, AInt 0, AInt 0x8000,
        AInt 0, AInt yiaddr, AInt 0, AInt 0,
        ABytes (chaddr @ replicate 10 0),
        ABytes (replicate 64 0), ABytes (replicate 128 0),
        AInt 0x63825363]"

text \<open>
  \<open>send_dhcp\<close>: the result is the argument pair of \<open>sock.sendto\<close>, or the exception raised
  while the packet is built.
\<close>

definition send_dhcp ::
  "socket_lib \<Rightarrow> int \<Rightarrow> bytes \<Rightarrow> int \<Rightarrow> string option \<Rightarrow> string option \<Rightarrow> error + (bytes \<times> addr)" where
  "send_dhcp lib msg_type mac xid requested_ip server_id =
     (case build_bootp 1 0 mac xid of
        Inl e \<Rightarrow> Inl e
      | Inr bootp \<Rightarrow>
     (case bytes1 msg_type of
        Inl e \<Rightarrow> Inl e
      | Inr mt \<Rightarrow>
     (let options = [0x35, 0x01] @ mt;
          options = options @ [0x3d, 0x07, 0x01] @ mac in
     (case (if truthy requested_ip then inet_aton lib (the requested_ip) else Inr []) of
        Inl e \<Rightarrow> Inl e
      | Inr rq \<Rightarrow>
     (let options = (if truthy requested_ip then options @ [0x32, 0x04] @ rq else options) in
     (case (if truthy server_id then inet_aton lib (the server_id) else Inr []) of
        Inl e \<Rightarrow> Inl e
      | Inr sv \<Rightarrow>
     (let options = (if truthy server_id then options @ [0x36, 0x04] @ sv else options);
          options = (if msg_type = 1 then options @ [0x37, 0x03, 0x03, 0x01, 0x06] else options);
          options = options @ [0xff];
          packet = bootp @ options
      in Inr (packet, (''255.255.255.255'', 67)))))))))"

text \<open>A lease as \<open>dhcp_client_logic\<close> records it: \<open>(mac, xid, offered_ip, server_ip)\<close>.\<close>

type_synonym lease = "bytes \<times> int \<times> string \<times> string"

text \<open>
  \<open>dhcp_client_logic\<close>, given the hardware address and transaction id drawn and the events
  of its socket. The function has a \<open>finally\<close> clause and no \<open>except\<close>: an exception leaves
  it, with the globals as they are at that point.
\<close>

definition dhcp_client_logic ::
  "socket_lib \<Rightarrow> bytes \<Rightarrow> int \<Rightarrow> event list \<Rightarrow> lease world \<Rightarrow> unit res \<times> lease world" where
  "dhcp_client_logic lib mac xid evs w =
     (case send_dhcp lib 1 mac xid None None of
        Inl e \<Rightarrow> (Raise e, w)
      | Inr d1 \<Rightarrow>
     (let w1 = w\<lparr>sent := sent w @ [d1]\<rparr> in
     (case wait_for_msg xid 2 evs of
        Blocked \<Rightarrow> (Blocked, w1)
      | Raise e \<Rightarrow> (Raise e, w1)
      | Ok (offer, evs1) \<Rightarrow>
     (if not_data offer then (Ok (), w1\<lparr>failed := failed w1 + 1\<rparr>)
      else
     (case inet_ntoa lib (slice (fst (the offer)) 16 20) of
        Inl e \<Rightarrow> (Raise e, w1)
      | Inr offered_ip \<Rightarrow>
     (let server_ip = fst (snd (the offer)) in
     (case send_dhcp lib 3 mac xid (Some offered_ip) (Some server_ip) of
        Inl e \<Rightarrow> (Raise e, w1)
      | Inr d2 \<Rightarrow>
     (let w2 = w1\<lparr>sent := sent w1 @ [d2]\<rparr> in
     (case wait_for_msg xid 5 evs1 of
        Blocked \<Rightarrow> (Blocked, w2)
      | Raise e \<Rightarrow> (Raise e, w2)
      | Ok (ack, evs2) \<Rightarrow>
     (if not_data ack then (Ok (), w2\<lparr>failed := failed w2 + 1\<rparr>)
      else
        (let w3 = w2\<lparr>success := success w2 + 1\<rparr>
         in (Ok (), w3\<lparr>clients := clients w3 @ [(mac, xid, offered_ip, server_ip)]\<rparr>))))))))))))"

text \<open>
  \<open>run_clients\<close>: one task per client number in \<open>range(TOTAL_CLIENTS)\<close>. The thread pool
  is modelled as running the tasks one after the other in task order, every task to its
  end; \<open>asyncio.gather\<close> then re-raises the first exception, if any. \<open>cenv i\<close> gives what
  client \<open>i\<close> draws and receives.
\<close>

definition TOTAL_CLIENTS :: nat where
  "TOTAL_CLIENTS = 50"

type_synonym client_env = "bytes \<times> int \<times> event list"

fun gather :: "unit res \<Rightarrow> unit res \<Rightarrow> unit res" where
  "gather (Ok u) r = r"
| "gather r _ = r"

fun run_tasks ::
  "('e \<Rightarrow> 'l world \<Rightarrow> unit res \<times> 'l world) \<Rightarrow> 'e list \<Rightarrow> 'l world \<Rightarrow> unit res \<times> 'l world" where
  "run_tasks task [] w = (Ok (), w)"
| "run_tasks task (c # cs) w =
     (let (r, w1) = task c w; (rs, w2) = run_tasks task cs w1 in (gather r rs, w2))"

definition run_clients :: "socket_lib \<Rightarrow> (nat \<Rightarrow> client_env) \<Rightarrow> lease world \<Rightarrow> unit res \<times> lease world" where
  "run_clients lib cenv w =
     run_tasks (\<lambda>(mac, xid, evs). dhcp_client_logic lib mac xid evs) (map cenv [0..<TOTAL_CLIENTS]) w"

text \<open>
  \<open>send_release\<close>: the body of the \<open>try\<close> builds the packet and sends it to
  \<open>(server_ip, 67)\<close>; \<open>except Exception\<close> swallows whatever it raises.
\<close>

definition release_packet :: "socket_lib \<Rightarrow> lease \<Rightarrow> error + (bytes \<times> addr)" where
  "release_packet lib l =
     (case l of (mac, xid, ip, server_ip) \<Rightarrow>
     (case build_bootp 1 0 mac xid of
        Inl e \<Rightarrow> Inl e
      | Inr bootp \<Rightarrow>
     (case inet_aton lib ip of
        Inl e \<Rightarrow> Inl e
      | Inr a \<Rightarrow>
     (case inet_aton lib server_ip of
        Inl e \<Rightarrow> Inl e
      | Inr s \<Rightarrow>
     (let options = [0x35, 0x01, 0x07] @ [0x3d, 0x07, 0x01] @ mac
                    @ [0x32, 0x04] @ a @ [0x36, 0x04] @ s @ [0xff];
          packet = bootp @ options
      in Inr (packet, (server_ip, 67)))))))"

definition send_release :: "socket_lib \<Rightarrow> lease \<Rightarrow> lease world \<Rightarrow> lease world" where
  "send_release lib l w =
     (case release_packet lib l of
        Inl e \<Rightarrow> w
      | Inr d \<Rightarrow> w\<lparr>sent := sent w @ [d]\<rparr>)"

text \<open>
  \<open>handle_exit\<close>: sets the flag, walks \<open>clients\<close>, and ends in \<open>sys.exit(0)\<close>; the second
  component is the exit status.
\<close>

definition handle_exit :: "socket_lib \<Rightarrow> lease world \<Rightarrow> lease world \<times> nat" where
  "handle_exit lib w =
     (let w1 = w\<lparr>stop_requested := True\<rparr>;
          w2 = foldl (\<lambda>w l. send_release lib l w) w1 (clients w1)
      in (w2, 0))"

text \<open>
  \<open>check_dhcp_server_health\<close>, given the address and id it draws and the events of its
  socket: the result and the datagrams it sent. Every exception inside is caught and
  gives \<open>False\<close>. The pings and listings it runs have no effect on the result.
\<close>

definition check_dhcp_server_health ::
  "socket_lib \<Rightarrow> string \<Rightarrow> bytes \<Rightarrow> int \<Rightarrow> event list \<Rightarrow> bool res \<times> (bytes \<times> addr) list" where
  "check_dhcp_server_health lib DHCP_SERVER_IP test_mac test_xid evs =
     (case send_dhcp lib 1 test_mac test_xid None None of
        Inl e \<Rightarrow> (Ok False, [])
      | Inr d1 \<Rightarrow>
     (case wait_for_msg test_xid 2 evs of
        Blocked \<Rightarrow> (Blocked, [d1])
      | Raise e \<Rightarrow> (Ok False, [d1])
      | Ok (offer, evs1) \<Rightarrow>
     (if \<not> not_data offer then (Ok True, [d1])
      else
     (case build_bootp 1 0 test_mac test_xid of
        Inl e \<Rightarrow> (Ok False, [d1])
      | Inr packet \<Rightarrow>
     (let options = [0x35, 0x01, 0x01] @ [0x3d, 0x07, 0x01] @ test_mac
                    @ [0x37, 0x03, 0x03, 0x01, 0x06] @ [0xff];
          d2 = (packet @ options, (DHCP_SERVER_IP, 67))
      in
     (case wait_for_msg test_xid 2 evs1 of
        Blocked \<Rightarrow> (Blocked, [d1, d2])
      | Raise e \<Rightarrow> (Ok False, [d1, d2])
      | Ok (offer2, evs2) \<Rightarrow> (Ok (\<not> not_data offer2), [d1, d2])))))))"

text \<open>
  The readiness loop of \<open>__main__\<close>. The clock is explicit: the first argument is
  \<open>time.time() - start_time\<close> as the loop test reads it, and every attempt comes with the
  time that passes until the next test (the probe and \<open>time.sleep(5)\<close>). With no attempt
  left to look at, the loop is still running.
\<close>

definition HEALTH_CHECK_TIMEOUT :: real where
  "HEALTH_CHECK_TIMEOUT = 30"

fun wait_ready ::
  "('p \<Rightarrow> bool res \<times> (bytes \<times> addr) list) \<Rightarrow> real \<Rightarrow> ('p \<times> real) list
     \<Rightarrow> bool res \<times> (bytes \<times> addr) list" where
  "wait_ready check elapsed [] = (if elapsed < HEALTH_CHECK_TIMEOUT then Blocked else Ok False, [])"
| "wait_ready check elapsed ((p, advance) # ps) =
     (if elapsed < HEALTH_CHECK_TIMEOUT then
        (case check p of
           (Ok True, ds) \<Rightarrow> (Ok True, ds)
         | (Ok False, ds) \<Rightarrow>
             (let (r, ds') = wait_ready check (elapsed + advance) ps in (r, ds @ ds'))
         | (r, ds) \<Rightarrow> (r, ds))
      else (Ok False, []))"

text \<open>
  How the process ends: \<open>sys.exit(n)\<close>, an exception nobody catches (a traceback, status
  1), or not at all.
\<close>

datatype exit = Exit nat | Uncaught error | Hang

fun exit_status :: "exit \<Rightarrow> nat option" where
  "exit_status (Exit n) = Some n"
| "exit_status (Uncaught e) = Some 1"
| "exit_status Hang = None"

text \<open>
  The script from top to bottom, with no signal delivered: the privilege check, the
  readiness loop (\<open>probe\<close> is one call of \<open>check_dhcp_server_health\<close>), and then
  \<open>orchestrated_run\<close>: \<open>asyncio.run(run_clients())\<close>, the hold and \<open>handle_exit\<close>.
  \<open>t0\<close> is the first reading of the clock. \<open>KeyboardInterrupt\<close> does not occur, the
  script having replaced the handler of SIGINT.
\<close>

definition probe ::
  "socket_lib \<Rightarrow> string \<Rightarrow> bytes \<times> int \<times> event list \<Rightarrow> bool res \<times> (bytes \<times> addr) list" where
  "probe lib DHCP_SERVER_IP =
     (\<lambda>(test_mac, test_xid, evs). check_dhcp_server_health lib DHCP_SERVER_IP test_mac test_xid evs)"

definition orchestrated_run ::
  "socket_lib \<Rightarrow> (nat \<Rightarrow> client_env) \<Rightarrow> lease world \<Rightarrow> exit \<times> lease world" where
  "orchestrated_run lib cenv w1 =
     (case run_clients lib cenv w1 of
        (Raise e, w2) \<Rightarrow> (Uncaught e, w2)
      | (Blocked, w2) \<Rightarrow> (Hang, w2)
      | (Ok u, w2) \<Rightarrow>
          if \<not> stop_requested w2 then (let (w3, n) = handle_exit lib w2 in (Exit n, w3))
          else (Exit 0, w2))"

definition main ::
  "socket_lib \<Rightarrow> string \<Rightarrow> nat \<Rightarrow> real \<Rightarrow> ((bytes \<times> int \<times> event list) \<times> real) list
     \<Rightarrow> (nat \<Rightarrow> client_env) \<Rightarrow> lease world \<Rightarrow> exit \<times> lease world" where
  "main lib DHCP_SERVER_IP euid t0 attempts cenv w =
     (if euid \<noteq> 0 then (Exit 1, w)
      else
     (case wait_ready (probe lib DHCP_SERVER_IP) t0 attempts of
        (Blocked, ds) \<Rightarrow> (Hang, w\<lparr>sent := sent w @ ds\<rparr>)
      | (Raise e, ds) \<Rightarrow> (Uncaught e, w\<lparr>sent := sent w @ ds\<rparr>)
      | (Ok dhcp_ready, ds) \<Rightarrow>
     (let w1 = w\<lparr>sent := sent w @ ds\<rparr> in
      if \<not> dhcp_ready then (Exit 1, w1)
      else orchestrated_run lib cenv w1)))"

section \<open>DHCPv6: \<open>client/dhcpv6_simulator.py\<close>\<close>

text \<open>
  \<open>random_duid\<close>, given \<open>int(time.time())\<close> and the four octets drawn for the hardware
  address.
\<close>

type_synonym duid_seed = "int \<times> byte \<times> byte \<times> byte \<times> byte"

definition random_duid :: "duid_seed \<Rightarrow> error + bytes" where
  "random_duid seed =
     (case seed of (now, r2, r3, r4, r5) \<Rightarrow>
     (let duid_type = 1; hw_type = 1;
          current_time = now - 946684800;
          mac = [0x02, 0x00, r2, r3, r4, r5]
      in case struct_pack [FH, FH, FI] [AInt duid_type, AInt hw_type, AInt current_time] of
           Inl e \<Rightarrow> Inl e
         | Inr b \<Rightarrow> Inr (b @ mac)))"

text \<open>A prefix hint is a string or a byte string.\<close>

datatype hint = HStr string | HBytes bytes

fun hint_truthy :: "hint option \<Rightarrow> bool" where
  "hint_truthy None = False"
| "hint_truthy (Some (HStr s)) = (s \<noteq> [])"
| "hint_truthy (Some (HBytes b)) = (b \<noteq> [])"

text \<open>Concatenation of byte strings built left to right; the first exception wins.\<close>

fun concat_err :: "(error + bytes) list \<Rightarrow> error + bytes" where
  "concat_err [] = Inr []"
| "concat_err (Inl e # xs) = Inl e"
| "concat_err (Inr b # xs) = (case concat_err xs of Inl e \<Rightarrow> Inl e | Inr bs \<Rightarrow> Inr (b @ bs))"

text \<open>
  The value of the IA_PD option as \<open>create_dhcpv6_msg\<close> builds it under
  \<open>if prefix_hint and msg_type in (1, 3)\<close>; \<open>ia_id\<close> is the number drawn.
\<close>

definition ia_pd_value :: "socket_lib \<Rightarrow> int \<Rightarrow> hint option \<Rightarrow> error + bytes" where
  "ia_pd_value lib ia_id prefix_hint =
     (let t1 = 0; t2 = 0 in
      case struct_pack [FI, FI, FI] [AInt ia_id, AInt t1, AInt t2] of
        Inl e \<Rightarrow> Inl e
      | Inr ia_pd \<Rightarrow>
          if hint_truthy prefix_hint then
            (let preferred = 3600; valid = 7200; prefix_len = 64 in
             case (case the prefix_hint of
                     HStr s \<Rightarrow> inet_pton lib (takeWhile (\<lambda>c. c \<noteq> CHR ''/'') s)
                   | HBytes b \<Rightarrow> Inr b) of
               Inl e \<Rightarrow> Inl e
             | Inr prefix_bytes \<Rightarrow>
                 (case struct_pack [FH, FH, FB, FB, FI]
                         [AInt 26, AInt 25, AInt preferred, AInt valid, AInt prefix_len] of
                    Inl e \<Rightarrow> Inl e
                  | Inr p \<Rightarrow> Inr (ia_pd @ p @ prefix_bytes)))
          else Inr ia_pd)"

definition create_dhcpv6_msg ::
  "socket_lib \<Rightarrow> int \<Rightarrow> int \<Rightarrow> bytes \<Rightarrow> bytes \<Rightarrow> hint option \<Rightarrow> bytes option \<Rightarrow> error + bytes" where
  "create_dhcpv6_msg lib ia_id msg_type transaction_id duid prefix_hint server_duid =
     concat_err
       [bytes1 msg_type, Inr transaction_id,
        struct_pack [FH, FH] [AInt 1, AInt (int (length duid))], Inr duid,
        (if truthy server_duid
         then concat_err [struct_pack [FH, FH] [AInt 2, AInt (int (length (the server_duid)))],
                          Inr (the server_duid)]
         else Inr []),
        struct_pack [FH, FH, FH] [AInt 8, AInt 2, AInt 0],
        (if hint_truthy prefix_hint \<and> (msg_type = 1 \<or> msg_type = 3)
         then (case ia_pd_value lib ia_id prefix_hint of
                 Inl e \<Rightarrow> Inl e
               | Inr ia_pd \<Rightarrow>
                   concat_err [struct_pack [FH, FH] [AInt 25, AInt (int (length ia_pd))], Inr ia_pd])
         else Inr []),
        struct_pack [FH, FH, FH] [AInt 6, AInt 4, AInt 23], struct_pack [FH] [AInt 24]]"

text \<open>\<open>send_dhcpv6\<close>: the argument pair of \<open>sock.sendto\<close>.\<close>

definition send_dhcpv6 ::
  "socket_lib \<Rightarrow> string \<Rightarrow> int \<Rightarrow> int \<Rightarrow> bytes \<Rightarrow> bytes \<Rightarrow> bytes option \<Rightarrow> hint option
     \<Rightarrow> error + (bytes \<times> addr)" where
  "send_dhcpv6 lib DHCPV6_SERVER_IP ia_id msg_type duid transaction_id server_duid prefix_hint =
     (case create_dhcpv6_msg lib ia_id msg_type transaction_id duid prefix_hint server_duid of
        Inl e \<Rightarrow> Inl e
      | Inr msg \<Rightarrow>
          (let dest = (if msg_type = 1 then (''ff02::1:2'', 547) else (DHCPV6_SERVER_IP, 547))
           in Inr (msg, dest)))"

text \<open>\<open>parse_dhcpv6_options\<close>: the loop, with the dictionary built so far.\<close>

function parse_options_loop :: "bytes \<Rightarrow> nat \<Rightarrow> (nat \<rightharpoonup> bytes) \<Rightarrow> error + (nat \<rightharpoonup> bytes)" where
  "parse_options_loop data offset options =
     (if offset < length data then
        if offset + 4 > length data then Inr options
        else
          (case unpack_H (slice data offset (offset + 2)) of
             Inl e \<Rightarrow> Inl e
           | Inr option_code \<Rightarrow>
          (case unpack_H (slice data (offset + 2) (offset + 4)) of
             Inl e \<Rightarrow> Inl e
           | Inr option_len \<Rightarrow>
               if offset + 4 + option_len > length data then Inr options
               else parse_options_loop data (offset + 4 + option_len)
                      (options(option_code \<mapsto> slice data (offset + 4) (offset + 4 + option_len)))))
      else Inr options)"
  by pat_completeness auto
termination
  by (relation "measure (\<lambda>(data, offset, options). length data - offset)") auto

definition parse_dhcpv6_options :: "bytes \<Rightarrow> nat \<Rightarrow> error + (nat \<rightharpoonup> bytes)" where
  "parse_dhcpv6_options data offset = parse_options_loop data offset Map.empty"

text \<open>\<open>str(n)\<close> for a number that is not negative.\<close>

function str_nat :: "nat \<Rightarrow> string" where
  "str_nat n = (if n < 10 then [char_of (48 + n)] else str_nat (n div 10) @ [char_of (48 + n mod 10)])"
  by pat_completeness auto
termination
  by (relation "measure id") auto

text \<open>
  \<open>extract_prefix_from_ia_pd\<close>: the loop over the sub-options from offset 12. An exception
  of \<open>inet_ntop\<close> is caught and gives \<open>None\<close>.
\<close>

function extract_prefix_loop :: "socket_lib \<Rightarrow> bytes \<Rightarrow> nat \<Rightarrow> error + string option" where
  "extract_prefix_loop lib ia_pd_option offset =
     (if offset < length ia_pd_option then
        if offset + 4 > length ia_pd_option then Inr None
        else
          (case unpack_H (slice ia_pd_option offset (offset + 2)) of
             Inl e \<Rightarrow> Inl e
           | Inr sub_option_code \<Rightarrow>
          (case unpack_H (slice ia_pd_option (offset + 2) (offset + 4)) of
             Inl e \<Rightarrow> Inl e
           | Inr sub_option_len \<Rightarrow>
               if offset + 4 + sub_option_len > length ia_pd_option then Inr None
               else if sub_option_code = 26 \<and> sub_option_len \<ge> 25 then
                 (case index ia_pd_option (offset + 4 + 8) of
                    Inl e \<Rightarrow> Inl e
                  | Inr prefix_len \<Rightarrow>
                      (let prefix_bytes = slice ia_pd_option (offset + 4 + 9) (offset + 4 + 9 + 16) in
                       case inet_ntop lib prefix_bytes of
                         Inl e \<Rightarrow> Inr None
                       | Inr prefix_str \<Rightarrow> Inr (Some (prefix_str @ ''/'' @ str_nat (unat prefix_len)))))
               else extract_prefix_loop lib ia_pd_option (offset + 4 + sub_option_len)))
      else Inr None)"
  by pat_completeness auto
termination
  by (relation "measure (\<lambda>(lib, d, offset). length d - offset)") auto

definition extract_prefix_from_ia_pd :: "socket_lib \<Rightarrow> bytes \<Rightarrow> error + string option" where
  "extract_prefix_from_ia_pd lib ia_pd_option =
     (if length ia_pd_option < 16 then Inr None
      else extract_prefix_loop lib ia_pd_option 12)"

text \<open>\<open>wait_for_dhcpv6_response\<close>; a timeout returns \<open>(None, None, None)\<close>.\<close>

fun wait_for_dhcpv6_response ::
  "bytes \<Rightarrow> int \<Rightarrow> event list \<Rightarrow> ((bytes \<times> addr \<times> (nat \<rightharpoonup> bytes)) option \<times> event list) res" where
  "wait_for_dhcpv6_response transaction_id expected_type [] = Blocked"
| "wait_for_dhcpv6_response transaction_id expected_type (Timeout # evs) = Ok (None, evs)"
| "wait_for_dhcpv6_response transaction_id expected_type (Datagram payload a # evs) =
     (let data = take 1024 payload in
      if length data < 4 then wait_for_dhcpv6_response transaction_id expected_type evs
      else
        (let msg_type = uint (data ! 0);
             msg_transaction_id = slice data 1 4
         in if msg_transaction_id \<noteq> transaction_id \<or> msg_type \<noteq> expected_type
            then wait_for_dhcpv6_response transaction_id expected_type evs
            else (case parse_dhcpv6_options data 4 of
                    Inl e \<Rightarrow> Raise e
                  | Inr options \<Rightarrow> Ok (Some (data, a, options), evs))))"

text \<open>
  A lease as \<open>dhcpv6_client_logic\<close> records it:
  \<open>(duid, transaction_id, server_duid, delegated_prefix, server_ip)\<close>.
\<close>

type_synonym lease6 = "bytes \<times> bytes \<times> bytes \<times> string option \<times> string"

fun not_data6 :: "(bytes \<times> addr \<times> (nat \<rightharpoonup> bytes)) option \<Rightarrow> bool" where
  "not_data6 None = True"
| "not_data6 (Some (data, a, options)) = (data = [])"

text \<open>
  What one client draws: the seed of its DUID, the three octets of its transaction id
  and the association ids for its SOLICIT and its REQUEST.
\<close>

type_synonym draws6 = "duid_seed \<times> (byte \<times> byte \<times> byte) \<times> int \<times> int"

definition dhcpv6_client_logic ::
  "socket_lib \<Rightarrow> string \<Rightarrow> draws6 \<Rightarrow> event list \<Rightarrow> lease6 world \<Rightarrow> unit res \<times> lease6 world" where
  "dhcpv6_client_logic lib DHCPV6_SERVER_IP draws evs w =
     (case draws of (seed, (x1, x2, x3), ia_id1, ia_id2) \<Rightarrow>
     (case random_duid seed of
        Inl e \<Rightarrow> (Raise e, w)
      | Inr duid \<Rightarrow>
     (let transaction_id = [x1, x2, x3];
          prefix_hint = Some (HStr ''fd00:1234:5678::'')
      in
     (case send_dhcpv6 lib DHCPV6_SERVER_IP ia_id1 1 duid transaction_id None prefix_hint of
        Inl e \<Rightarrow> (Raise e, w)
      | Inr d1 \<Rightarrow>
     (let w1 = w\<lparr>sent := sent w @ [d1]\<rparr> in
     (case wait_for_dhcpv6_response transaction_id 2 evs of
        Blocked \<Rightarrow> (Blocked, w1)
      | Raise e \<Rightarrow> (Raise e, w1)
      | Ok (advertise, evs1) \<Rightarrow>
     (if not_data6 advertise then (Ok (), w1\<lparr>failed := failed w1 + 1\<rparr>)
      else
     (let a = fst (snd (the advertise)); options = snd (snd (the advertise)) in
      if options 2 = None then (Ok (), w1\<lparr>failed := failed w1 + 1\<rparr>)
      else
     (let server_duid = the (options 2); server_ip = fst a in
     (case (if options 25 \<noteq> None then extract_prefix_from_ia_pd lib (the (options 25))
            else Inr None) of
        Inl e \<Rightarrow> (Raise e, w1)
      | Inr delegated_prefix \<Rightarrow>
     (case send_dhcpv6 lib DHCPV6_SERVER_IP ia_id2 3 duid transaction_id (Some server_duid)
             prefix_hint of
        Inl e \<Rightarrow> (Raise e, w1)
      | Inr d2 \<Rightarrow>
     (let w2 = w1\<lparr>sent := sent w1 @ [d2]\<rparr> in
     (case wait_for_dhcpv6_response transaction_id 7 evs1 of
        Blocked \<Rightarrow> (Blocked, w2)
      | Raise e \<Rightarrow> (Raise e, w2)
      | Ok (reply, evs2) \<Rightarrow>
     (if not_data6 reply then (Ok (), w2\<lparr>failed := failed w2 + 1\<rparr>)
      else
     (let reply_options = snd (snd (the reply)) in
     (case (if reply_options 25 \<noteq> None
            then extract_prefix_from_ia_pd lib (the (reply_options 25))
            else Inr delegated_prefix) of
        Inl e \<Rightarrow> (Raise e, w2)
      | Inr delegated_prefix \<Rightarrow>
        (let w3 = w2\<lparr>success := success w2 + 1\<rparr>
         in (Ok (),
             w3\<lparr>clients := clients w3 @
                    [(duid, transaction_id, server_duid, delegated_prefix, server_ip)]\<rparr>))))))))))))))))))"



definition run_clients_v6 ::
  "socket_lib \<Rightarrow> string \<Rightarrow> (nat \<Rightarrow> draws6 \<times> event list) \<Rightarrow> lease6 world \<Rightarrow> unit res \<times> lease6 world" where
  "run_clients_v6 lib DHCPV6_SERVER_IP cenv w =
     run_tasks (\<lambda>(draws, evs). dhcpv6_client_logic lib DHCPV6_SERVER_IP draws evs)
       (map cenv [0..<TOTAL_CLIENTS]) w"

text \<open>
  \<open>send_release\<close> of the DHCPv6 script. The message is \<open>create_dhcpv6_msg(8, ...)\<close> with no
  prefix hint, so no association id is drawn; \<open>prefix\<close> is only printed.
\<close>

definition release_packet_v6 :: "socket_lib \<Rightarrow> lease6 \<Rightarrow> error + (bytes \<times> addr)" where
  "release_packet_v6 lib l =
     (case l of (duid, transaction_id, server_duid, prefix, server_ip) \<Rightarrow>
     (case create_dhcpv6_msg lib 0 8 transaction_id duid None (Some server_duid) of
        Inl e \<Rightarrow> Inl e
      | Inr msg \<Rightarrow> Inr (msg, (server_ip, 547))))"

definition send_release_v6 :: "socket_lib \<Rightarrow> lease6 \<Rightarrow> lease6 world \<Rightarrow> lease6 world" where
  "send_release_v6 lib l w =
     (case release_packet_v6 lib l of
        Inl e \<Rightarrow> w
      | Inr d \<Rightarrow> w\<lparr>sent := sent w @ [d]\<rparr>)"

definition handle_exit_v6 :: "socket_lib \<Rightarrow> lease6 world \<Rightarrow> lease6 world \<times> nat" where
  "handle_exit_v6 lib w =
     (let w1 = w\<lparr>stop_requested := True\<rparr>;
          w2 = foldl (\<lambda>w l. send_release_v6 lib l w) w1 (clients w1)
      in (w2, 0))"

text \<open>\<open>check_dhcpv6_server_health\<close>: every exception inside is caught and gives \<open>False\<close>.\<close>

definition check_dhcpv6_server_health ::
  "socket_lib \<Rightarrow> string \<Rightarrow> draws6 \<Rightarrow> event list \<Rightarrow> bool res \<times> (bytes \<times> addr) list" where
  "check_dhcpv6_server_health lib DHCPV6_SERVER_IP draws evs =
     (case draws of (seed, (x1, x2, x3), ia_id1, ia_id2) \<Rightarrow>
     (case random_duid seed of
        Inl e \<Rightarrow> (Ok False, [])
      | Inr test_duid \<Rightarrow>
     (let test_xid = [x1, x2, x3] in
     (case send_dhcpv6 lib DHCPV6_SERVER_IP ia_id1 1 test_duid test_xid None None of
        Inl e \<Rightarrow> (Ok False, [])
      | Inr d1 \<Rightarrow>
     (case wait_for_dhcpv6_response test_xid 2 evs of
        Blocked \<Rightarrow> (Blocked, [d1])
      | Raise e \<Rightarrow> (Ok False, [d1])
      | Ok (advertise, evs1) \<Rightarrow>
     (if \<not> not_data6 advertise then (Ok True, [d1])
      else
     (let prefix_hint = Some (HStr ''fd00:1234:5678::'') in
     (case send_dhcpv6 lib DHCPV6_SERVER_IP ia_id2 1 test_duid test_xid None prefix_hint of
        Inl e \<Rightarrow> (Ok False, [d1])
      | Inr d2 \<Rightarrow>
     (case wait_for_dhcpv6_response test_xid 2 evs1 of
        Blocked \<Rightarrow> (Blocked, [d1, d2])
      | Raise e \<Rightarrow> (Ok False, [d1, d2])
      | Ok (advertise2, evs2) \<Rightarrow> (Ok (\<not> not_data6 advertise2), [d1, d2]))))))))))"

text \<open>
  The DHCPv6 script from top to bottom, with no signal delivered; \<open>debug\<close> says whether
  the first command-line argument is \<open>--debug\<close>.
\<close>

definition probe_v6 ::
  "socket_lib \<Rightarrow> string \<Rightarrow> draws6 \<times> event list \<Rightarrow> bool res \<times> (bytes \<times> addr) list" where
  "probe_v6 lib DHCPV6_SERVER_IP =
     (\<lambda>(draws, evs). check_dhcpv6_server_health lib DHCPV6_SERVER_IP draws evs)"

definition orchestrated_run_v6 ::
  "socket_lib \<Rightarrow> string \<Rightarrow> (nat \<Rightarrow> draws6 \<times> event list) \<Rightarrow> lease6 world
     \<Rightarrow> exit \<times> lease6 world" where
  "orchestrated_run_v6 lib DHCPV6_SERVER_IP cenv w1 =
     (case run_clients_v6 lib DHCPV6_SERVER_IP cenv w1 of
        (Raise e, w2) \<Rightarrow> (Uncaught e, w2)
      | (Blocked, w2) \<Rightarrow> (Hang, w2)
      | (Ok u, w2) \<Rightarrow>
          if \<not> stop_requested w2 then (let (w3, n) = handle_exit_v6 lib w2 in (Exit n, w3))
          else (Exit 0, w2))"

definition main_v6 ::
  "socket_lib \<Rightarrow> string \<Rightarrow> nat \<Rightarrow> bool \<Rightarrow> real \<Rightarrow> ((draws6 \<times> event list) \<times> real) list
     \<Rightarrow> (nat \<Rightarrow> draws6 \<times> event list) \<Rightarrow> lease6 world \<Rightarrow> exit \<times> lease6 world" where
  "main_v6 lib DHCPV6_SERVER_IP euid debug t0 attempts cenv w =
     (if euid \<noteq> 0 then (Exit 1, w)
      else if debug then (Exit 0, w)
      else
     (case wait_ready (probe_v6 lib DHCPV6_SERVER_IP) t0 attempts of
        (Blocked, ds) \<Rightarrow> (Hang, w\<lparr>sent := sent w @ ds\<rparr>)
      | (Raise e, ds) \<Rightarrow> (Uncaught e, w\<lparr>sent := sent w @ ds\<rparr>)
      | (Ok dhcpv6_ready, ds) \<Rightarrow>
     (let w1 = w\<lparr>sent := sent w @ ds\<rparr> in
      if \<not> dhcpv6_ready then (Exit 1, w1)
      else orchestrated_run_v6 lib DHCPV6_SERVER_IP cenv w1)))"

section \<open>Decoding a DHCPv4 option, and sample data\<close>

text \<open>
  Modelled from the spec: the source has no DHCPv4 decoder for an option other than the
  message type (the scan of \<open>wait_for_msg\<close> looks for tag 53 only). This is the option
  stream of the spec, sections 4.1 and 6: entries \<open>tag(1) len(1) value(len)\<close> from
  offset 240 up to the end tag \<open>0xFF\<close>; an entry that does not fit the buffer ends the
  scan. The result is the value of the first entry with the tag asked for.
\<close>

function dhcp_option :: "bytes \<Rightarrow> nat \<Rightarrow> byte \<Rightarrow> bytes option" where
  "dhcp_option data i tag =
     (if i < length data then
        if data ! i = 0xff then None
        else if i + 1 < length data \<and> i + 2 + unat (data ! (i + 1)) \<le> length data then
          (if data ! i = tag then Some (slice data (i + 2) (i + 2 + unat (data ! (i + 1))))
           else dhcp_option data (i + 2 + unat (data ! (i + 1))) tag)
        else None
      else None)"
  by pat_completeness auto
termination
  by (relation "measure (\<lambda>(data, i, tag). length data - i)") auto

text \<open>
  The address conversions at the addresses of the spec's scenarios (section 8); what
  this instance does at any other argument plays no role.
\<close>

definition scenario_lib :: socket_lib where
  "scenario_lib =
     \<lparr>inet_aton = (\<lambda>s. if s = ''10.0.0.5'' then Inr [10, 0, 0, 5]
                        else if s = ''10.0.0.1'' then Inr [10, 0, 0, 1] else Inl OSError),
      inet_ntoa = (\<lambda>b. if b = [10, 0, 0, 5] then Inr ''10.0.0.5''
                        else if b = [10, 0, 0, 1] then Inr ''10.0.0.1'' else Inl OSError),
      inet_pton = (\<lambda>s. if s = ''fd00:1234:5678::''
                        then Inr [0xfd, 0x00, 0x12, 0x34, 0x56, 0x78, 0, 0, 0, 0, 0, 0, 0, 0, 0, 0]
                        else Inl OSError),
      inet_ntop = (\<lambda>b. if b = [0xfd, 0x00, 0x12, 0x34, 0x56, 0x78, 0, 0, 0, 0, 0, 0, 0, 0, 0, 0]
                        then Inr ''fd00:1234:5678::'' else Inl OSError)\<rparr>"

text \<open>An empty world: no lease, both counters zero, nothing sent.\<close>

definition world0 :: "'l world" where
  "world0 = \<lparr>clients = [], success = 0, failed = 0, stop_requested = False, sent = []\<rparr>"

text \<open>
  A datagram of 241 octets that carries the transaction id \<open>0x11223344\<close> and whose option
  stream is the single octet 53: the tag of an entry cut off before its length.
\<close>

definition truncated_offer :: bytes where
  "truncated_offer = [2, 1, 6, 0, 0x11, 0x22, 0x33, 0x44] @ replicate 232 0 @ [53]"

text \<open>What a client may draw: a hardware address, a DUID seed, a transaction id.\<close>

definition sample_mac :: bytes where
  "sample_mac = random_mac 0x1a 0x2b 0x3c 0x4d"

definition sample_draws :: draws6 where
  "sample_draws = ((1000000000, 0x1a, 0x2b, 0x3c, 0x4d), (0xab, 0xcd, 0xef), 7, 8)"

definition sample_duid :: bytes where
  "sample_duid = [0, 1, 0, 1, 0x03, 0x2d, 0x86, 0x80, 0x02, 0x00, 0x1a, 0x2b, 0x3c, 0x4d]"

text \<open>
  Datagrams of another transaction: a complete DHCPv4 OFFER with transaction id
  \<open>0x55667788\<close>, and a DHCPv6 ADVERTISE with transaction id \<open>01 02 03\<close>.
\<close>

definition foreign_offer :: bytes where
  "foreign_offer = [2, 1, 6, 0, 0x55, 0x66, 0x77, 0x88] @ replicate 232 0 @ [53, 1, 2, 0xff]"

definition foreign_advertise :: bytes where
  "foreign_advertise = [2, 0x01, 0x02, 0x03, 0, 2, 0, 2, 0xaa, 0xbb]"

text \<open>
  An ADVERTISE for transaction \<open>ab cd ef\<close> that carries a server identifier (option 2)
  and the client identifier (option 1), a server DUID, and leases as the two scripts
  would record them.
\<close>

definition sample_server_duid :: bytes where
  "sample_server_duid = [0, 3, 0, 1, 0x52, 0x54, 0x00, 0x12, 0x34, 0x56]"

definition sample_advertise :: bytes where
  "sample_advertise =
     [2, 0xab, 0xcd, 0xef] @ [0, 2, 0, 10] @ sample_server_duid @ [0, 1, 0, 14] @ sample_duid"

definition sample_lease :: lease where
  "sample_lease = (sample_mac, 0x11223344, ''10.0.0.5'', ''10.0.0.1'')"

definition sample_lease6 :: lease6 where
  "sample_lease6 =
     (sample_duid, [0xab, 0xcd, 0xef], sample_server_duid, Some ''fd00:1234:5678::/64'', ''fe80::1c'')"

text \<open>
  An OFFER for transaction \<open>0x11223344\<close>: \<open>yiaddr\<close> 10.0.0.5, message type 2, server
  identifier 10.0.0.1.
\<close>

definition sample_offer :: bytes where
  "sample_offer =
     [2, 1, 6, 0, 0x11, 0x22, 0x33, 0x44] @ replicate 8 0 @ [10, 0, 0, 5] @ replicate 220 0
     @ [53, 1, 2, 54, 4, 10, 0, 0, 1, 0xff]"




declare scan_options.simps [simp del] parse_options_loop.simps [simp del]
  extract_prefix_loop.simps [simp del] dhcp_option.simps [simp del] str_nat.simps [simp del]

section \<open>Malformed option streams\<close>

lemma length_truncated_offer: "length truncated_offer = 241"
  by (simp add: truncated_offer_def)

lemma truncated_offer_240: "truncated_offer ! 240 = 53"
  by (simp add: truncated_offer_def nth_append)

lemma slice_truncated_offer: "slice truncated_offer 4 8 = [0x11, 0x22, 0x33, 0x44]"
  by (simp add: truncated_offer_def slice_def)

lemma scan_truncated_offer: "scan_options truncated_offer 240 t = Inl IndexError"
  by (subst scan_options.simps) (simp add: length_truncated_offer truncated_offer_240)

lemma wait_truncated_offer:
  "wait_for_msg 0x11223344 t (Datagram truncated_offer a # evs) = Raise IndexError"
  by (simp add: scan_truncated_offer length_truncated_offer slice_truncated_offer)

text \<open>
  C1 (fails on the DHCPv4 side). A socket waiting for the OFFER of transaction
  \<open>0x11223344\<close> receives \<open>truncated_offer\<close>, whose only option entry is cut off after its
  tag. The claim says the datagram counts as no match and the loop waits on (here: for
  the timeout that follows, returning \<open>(None, None)\<close>). The scan reads \<open>data[index+2]\<close>
  past the buffer instead, and the \<open>IndexError\<close> leaves \<open>wait_for_msg\<close>.
\<close>

theorem wait_for_msg_truncated_option_raises:
  "wait_for_msg 0x11223344 2 [Datagram truncated_offer (''10.0.0.1'', 67), Timeout]
     = Raise IndexError"
  by (rule wait_truncated_offer)

text \<open>
  The DHCPv6 parser has the guards the DHCPv4 scan lacks: every read is inside the
  buffer, so \<open>parse_dhcpv6_options\<close> returns a dictionary for every buffer and offset.
\<close>

lemma unpack_H_slice:
  "b = a + 2 \<Longrightarrow> b \<le> length data \<Longrightarrow> \<exists>n. unpack_H (slice data a b) = Inr n"
  by (simp add: unpack_H_def slice_def)

lemma parse_options_loop_total: "\<exists>m. parse_options_loop data offset options = Inr m"
proof (induction data offset options rule: parse_options_loop.induct)
  case (1 data offset options)
  show ?case
  proof (cases "offset < length data \<and> \<not> offset + 4 > length data")
    case False
    then show ?thesis by (subst parse_options_loop.simps) auto
  next
    case True
    then obtain c where c: "unpack_H (slice data offset (offset + 2)) = Inr c"
      using unpack_H_slice [of "offset + 2" offset data] by auto
    from True obtain n where n: "unpack_H (slice data (offset + 2) (offset + 4)) = Inr n"
      using unpack_H_slice [of "offset + 4" "offset + 2" data] by auto
    show ?thesis
    proof (cases "offset + 4 + n > length data")
      case True
      then show ?thesis using c n by (subst parse_options_loop.simps) auto
    next
      case False
      have "\<exists>m. parse_options_loop data (offset + 4 + n)
                  (options(c \<mapsto> slice data (offset + 4) (offset + 4 + n))) = Inr m"
        by (rule "1.IH") (use True c n False in auto)
      moreover have "parse_options_loop data offset options =
          parse_options_loop data (offset + 4 + n)
            (options(c \<mapsto> slice data (offset + 4) (offset + 4 + n)))"
        using True c n False by (subst parse_options_loop.simps) simp
      ultimately show ?thesis by simp
    qed
  qed
qed

lemma parse_dhcpv6_options_total: "\<exists>m. parse_dhcpv6_options data offset = Inr m"
  by (simp add: parse_dhcpv6_options_def parse_options_loop_total)

section \<open>The IA_Prefix sub-option\<close>

lemma concat_err_Inl: "Inl e \<in> set xs \<Longrightarrow> \<exists>e'. concat_err xs = Inl e'"
  by (induction xs rule: concat_err.induct) (auto split: sum.splits)

lemma ia_pd_value_raises: "hint_truthy h \<Longrightarrow> \<exists>e. ia_pd_value lib ia_id h = Inl e"
  by (auto simp: ia_pd_value_def split: sum.splits hint.splits)

lemma create_dhcpv6_msg_hint_raises:
  assumes "hint_truthy h" and "msg_type = 1 \<or> msg_type = 3"
  shows "\<exists>e. create_dhcpv6_msg lib ia_id msg_type tx duid h sd = Inl e"
proof -
  obtain e where "ia_pd_value lib ia_id h = Inl e"
    using ia_pd_value_raises [OF assms(1)] by blast
  with assms show ?thesis
    unfolding create_dhcpv6_msg_def by (intro concat_err_Inl [of e]) simp
qed

lemma send_dhcpv6_hint_raises:
  assumes "hint_truthy h" and "msg_type = 1 \<or> msg_type = 3"
  shows "\<exists>e. send_dhcpv6 lib ip ia_id msg_type duid tx sd h = Inl e"
  using create_dhcpv6_msg_hint_raises [OF assms, of lib ia_id tx duid sd]
  by (auto simp: send_dhcpv6_def)

text \<open>
  C2 (fails). A SOLICIT with the prefix hint of \<open>dhcpv6_client_logic\<close>: the claim says the
  message carries an IA_PD option with a nested IA_Prefix of 4 + 4 + 1 + 16 octets. The
  format \<open>!HHBBI\<close> packs the two lifetimes as single octets, and 3600 does not fit one:
  \<open>struct.pack\<close> raises and no message is built.
\<close>

theorem create_dhcpv6_msg_prefix_hint_raises:
  "create_dhcpv6_msg scenario_lib 7 1 [0xab, 0xcd, 0xef] sample_duid
     (Some (HStr ''fd00:1234:5678::'')) None = Inl StructError"
  by (simp add: create_dhcpv6_msg_def ia_pd_value_def scenario_lib_def sample_duid_def bytes1_def)

section \<open>Transactions that end in an exception, and transactions that time out\<close>

lemma send_dhcp_discover_ok:
  "0 \<le> xid \<Longrightarrow> xid \<le> 4294967295 \<Longrightarrow>
   \<exists>p. send_dhcp lib 1 mac xid None None = Inr (p, (''255.255.255.255'', 67))"
  by (simp add: send_dhcp_def build_bootp_def bytes1_def)

lemma dhcpv6_client_logic_raises:
  "\<exists>e. dhcpv6_client_logic lib ip draws evs w = (Raise e, w)"
proof -
  obtain seed x1 x2 x3 i1 i2 where d: "draws = (seed, (x1, x2, x3), i1, i2)"
    by (metis prod_cases3 prod_cases4)
  show ?thesis
  proof (cases "random_duid seed")
    case (Inl e)
    then show ?thesis by (simp add: dhcpv6_client_logic_def d)
  next
    case (Inr duid)
    obtain e where
      "send_dhcpv6 lib ip i1 1 duid [x1, x2, x3] None (Some (HStr ''fd00:1234:5678::'')) = Inl e"
      using send_dhcpv6_hint_raises
        [of "Some (HStr ''fd00:1234:5678::'')" 1 lib ip i1 duid "[x1, x2, x3]" None]
      by auto
    with Inr show ?thesis by (simp add: dhcpv6_client_logic_def d)
  qed
qed

lemma dhcp_client_logic_truncated:
  "\<exists>w'. dhcp_client_logic lib mac 0x11223344 (Datagram truncated_offer a # evs) w
          = (Raise IndexError, w')
        \<and> success w' = success w \<and> failed w' = failed w \<and> clients w' = clients w"
proof -
  obtain p where "send_dhcp lib 1 mac 0x11223344 None None = Inr (p, (''255.255.255.255'', 67))"
    using send_dhcp_discover_ok [of "0x11223344" lib mac] by auto
  then show ?thesis
    by (simp add: dhcp_client_logic_def wait_truncated_offer del: wait_for_msg.simps)
qed

text \<open>A client whose first wait ends in a timeout returns, with one more failure.\<close>

lemma dhcp_client_logic_timeout:
  assumes "0 \<le> xid" "xid \<le> 4294967295"
  shows "fst (dhcp_client_logic lib mac xid (Timeout # evs) w) = Ok ()
         \<and> failed (snd (dhcp_client_logic lib mac xid (Timeout # evs) w)) = failed w + 1
         \<and> success (snd (dhcp_client_logic lib mac xid (Timeout # evs) w)) = success w
         \<and> clients (snd (dhcp_client_logic lib mac xid (Timeout # evs) w)) = clients w"
proof -
  obtain p where "send_dhcp lib 1 mac xid None None = Inr (p, (''255.255.255.255'', 67))"
    using send_dhcp_discover_ok [OF assms] by blast
  then show ?thesis by (simp add: dhcp_client_logic_def)
qed

section \<open>Datagrams of other transactions\<close>

lemma wait_for_msg_skips:
  assumes "struct_pack [FI] [AInt xid] = Inr x"
    and "\<forall>(p, a) \<in> set ds. slice (take 1024 p) 4 8 \<noteq> x"
  shows "wait_for_msg xid t (map (\<lambda>(p, a). Datagram p a) ds @ evs) = wait_for_msg xid t evs"
  using assms by (induction ds) auto

lemma wait_for_dhcpv6_response_skips:
  assumes "\<forall>(p, a) \<in> set ds. 4 \<le> length (take 1024 p) \<longrightarrow>
             slice (take 1024 p) 1 4 \<noteq> tx \<or> uint (take 1024 p ! 0) \<noteq> t"
  shows "wait_for_dhcpv6_response tx t (map (\<lambda>(p, a). Datagram p a) ds @ evs)
           = wait_for_dhcpv6_response tx t evs"
  using assms by (induction ds) (auto simp: Let_def)

lemma wait_for_msg_returns_match:
  assumes "wait_for_msg xid t evs = Ok (Some (d, a), rest)"
  shows "struct_pack [FI] [AInt xid] = Inr (slice d 4 8) \<and> scan_options d 240 t = Inr True
         \<and> (\<exists>p. Datagram p a \<in> set evs \<and> d = take 1024 p)"
  using assms
proof (induction evs)
  case Nil
  then show ?case by simp
next
  case (Cons ev evs)
  show ?case
  proof (cases ev)
    case Timeout
    with Cons.prems show ?thesis by simp
  next
    case (Datagram payload a')
    with Cons show ?thesis
      by (auto simp: Let_def split: sum.splits if_splits bool.splits)
  qed
qed

lemma wait_for_dhcpv6_response_returns_match:
  assumes "wait_for_dhcpv6_response tx t evs = Ok (Some (d, a, options), rest)"
  shows "slice d 1 4 = tx \<and> uint (d ! 0) = t \<and> 4 \<le> length d
         \<and> (\<exists>p. Datagram p a \<in> set evs \<and> d = take 1024 p)"
  using assms
proof (induction evs)
  case Nil
  then show ?case by simp
next
  case (Cons ev evs)
  show ?case
  proof (cases ev)
    case Timeout
    with Cons.prems show ?thesis by simp
  next
    case (Datagram payload a')
    with Cons show ?thesis
      by (auto simp: Let_def split: sum.splits if_splits)
  qed
qed

text \<open>
  C6. Let \<open>ds\<close> be datagrams none of which carries the transaction id the DHCPv4 loop waits
  for, and \<open>ds6\<close> datagrams each of which has another transaction id or another message
  type than the DHCPv6 loop waits for (or is shorter than a header). Each loop goes
  through them as if they had not arrived: what it returns is what it returns on the
  events after them. If a timeout follows, it returns \<open>None\<close>; with nothing after them it
  is still waiting. By \<open>wait_for_msg_returns_match\<close> and
  \<open>wait_for_dhcpv6_response_returns_match\<close> a datagram that is returned does match.
\<close>

theorem mismatched_datagrams_are_skipped:
  assumes "struct_pack [FI] [AInt xid] = Inr x"
    and "\<forall>(p, a) \<in> set ds. slice (take 1024 p) 4 8 \<noteq> x"
    and "\<forall>(p, a) \<in> set ds6. 4 \<le> length (take 1024 p) \<longrightarrow>
           slice (take 1024 p) 1 4 \<noteq> transaction_id \<or> uint (take 1024 p ! 0) \<noteq> expected_type6"
  shows "wait_for_msg xid expected_type (map (\<lambda>(p, a). Datagram p a) ds @ evs)
           = wait_for_msg xid expected_type evs
       \<and> wait_for_msg xid expected_type (map (\<lambda>(p, a). Datagram p a) ds @ [Timeout]) = Ok (None, [])
       \<and> wait_for_msg xid expected_type (map (\<lambda>(p, a). Datagram p a) ds) = Blocked
       \<and> wait_for_dhcpv6_response transaction_id expected_type6
             (map (\<lambda>(p, a). Datagram p a) ds6 @ evs6)
           = wait_for_dhcpv6_response transaction_id expected_type6 evs6
       \<and> wait_for_dhcpv6_response transaction_id expected_type6
             (map (\<lambda>(p, a). Datagram p a) ds6 @ [Timeout]) = Ok (None, [])
       \<and> wait_for_dhcpv6_response transaction_id expected_type6
             (map (\<lambda>(p, a). Datagram p a) ds6) = Blocked"
  using wait_for_msg_skips [OF assms(1,2)] wait_for_msg_skips [OF assms(1,2), of _ "[]"]
    wait_for_dhcpv6_response_skips [OF assms(3)]
    wait_for_dhcpv6_response_skips [OF assms(3), of "[]"]
  by simp

theorem mismatched_datagrams_are_skipped_witness:
  "wait_for_msg 0x11223344 2 [Datagram foreign_offer (''10.0.0.9'', 67), Timeout] = Ok (None, [])
   \<and> wait_for_dhcpv6_response [0xab, 0xcd, 0xef] 2
        [Datagram foreign_advertise (''fe80::9'', 547), Timeout] = Ok (None, [])"
proof -
  have 1: "struct_pack [FI] [AInt 0x11223344] = Inr [0x11, 0x22, 0x33, 0x44]" by simp
  have 2: "\<forall>(p, a) \<in> set [(foreign_offer, (''10.0.0.9'', 67::nat))].
             slice (take 1024 p) 4 8 \<noteq> [0x11, 0x22, 0x33, 0x44]"
    by (simp add: foreign_offer_def slice_def)
  have 3: "\<forall>(p, a) \<in> set [(foreign_advertise, (''fe80::9'', 547::nat))].
             4 \<le> length (take 1024 p) \<longrightarrow>
             slice (take 1024 p) 1 4 \<noteq> [0xab, 0xcd, 0xef] \<or> uint (take 1024 p ! 0) \<noteq> 2"
    by (simp add: foreign_advertise_def slice_def)
  from mismatched_datagrams_are_skipped [OF 1 2 3, of 2 "[]" "[]"]
  show ?thesis by simp
qed

section \<open>Destinations of DHCPv6 messages\<close>

lemma unat_byte: "0 \<le> k \<Longrightarrow> k < 256 \<Longrightarrow> unat (word_of_int k :: byte) = nat k"
  by (simp add: unat_eq_nat_uint uint_word_of_int take_bit_eq_mod)

lemma create_dhcpv6_msg_plain:
  assumes "0 \<le> msg_type" "msg_type < 256" "length duid \<le> 65535"
    and "\<not> hint_truthy h \<or> (msg_type \<noteq> 1 \<and> msg_type \<noteq> 3)"
    and "\<not> truthy sd"
  shows "create_dhcpv6_msg lib ia_id msg_type tx duid h sd
    = Inr ([word_of_int msg_type] @ tx
           @ [0, 1, word_of_int (int (length duid) div 256), word_of_int (int (length duid) mod 256)]
           @ duid @ [0, 8, 0, 2, 0, 0] @ [0, 6, 0, 4, 0, 23, 0, 24])"
  using assms by (auto simp: create_dhcpv6_msg_def bytes1_def)

lemma create_dhcpv6_msg_server:
  assumes "0 \<le> msg_type" "msg_type < 256" "length duid \<le> 65535"
    and "\<not> hint_truthy h \<or> (msg_type \<noteq> 1 \<and> msg_type \<noteq> 3)"
    and "s \<noteq> []" "length s \<le> 65535"
  shows "create_dhcpv6_msg lib ia_id msg_type tx duid h (Some s)
    = Inr ([word_of_int msg_type] @ tx
           @ [0, 1, word_of_int (int (length duid) div 256), word_of_int (int (length duid) mod 256)]
           @ duid
           @ [0, 2, word_of_int (int (length s) div 256), word_of_int (int (length s) mod 256)]
           @ s @ [0, 8, 0, 2, 0, 0] @ [0, 6, 0, 4, 0, 23, 0, 24])"
  using assms by (auto simp: create_dhcpv6_msg_def bytes1_def)

lemma create_dhcpv6_msg_ok:
  assumes "0 \<le> msg_type" "msg_type < 256" "length duid \<le> 65535"
    and "\<not> hint_truthy h \<or> (msg_type \<noteq> 1 \<and> msg_type \<noteq> 3)"
    and "\<forall>s. sd = Some s \<longrightarrow> length s \<le> 65535"
  shows "\<exists>msg. create_dhcpv6_msg lib ia_id msg_type tx duid h sd = Inr msg"
proof (cases "truthy sd")
  case False
  then show ?thesis using create_dhcpv6_msg_plain [OF assms(1-4)] by blast
next
  case True
  then obtain s where "sd = Some s" "s \<noteq> []" by (cases sd) auto
  then show ?thesis using create_dhcpv6_msg_server [OF assms(1-4)] assms(5) by blast
qed

text \<open>
  C8, as amended. A message that can be built (its type fits an octet, the identifiers
  fit their length fields, and it is not a SOLICIT or REQUEST with a prefix hint) is
  sent to \<open>ff02::1:2\<close> port 547 when its type is 1, and otherwise to the configured
  address \<open>DHCPV6_SERVER_IP\<close> port 547.
\<close>

theorem send_dhcpv6_destination:
  assumes "0 \<le> msg_type" "msg_type < 256" "length duid \<le> 65535"
    and "\<not> hint_truthy prefix_hint \<or> (msg_type \<noteq> 1 \<and> msg_type \<noteq> 3)"
    and "\<forall>s. server_duid = Some s \<longrightarrow> length s \<le> 65535"
  shows "\<exists>msg. send_dhcpv6 lib DHCPV6_SERVER_IP ia_id msg_type duid transaction_id server_duid
                 prefix_hint
               = Inr (msg, if msg_type = 1 then (''ff02::1:2'', 547) else (DHCPV6_SERVER_IP, 547))"
  using create_dhcpv6_msg_ok [OF assms, of lib ia_id transaction_id]
  by (auto simp: send_dhcpv6_def)

theorem send_dhcpv6_destination_witness:
  "(\<exists>msg. send_dhcpv6 scenario_lib ''fe80::2'' 7 1 sample_duid [0xab, 0xcd, 0xef] None None
            = Inr (msg, (''ff02::1:2'', 547)))
   \<and> (\<exists>msg. send_dhcpv6 scenario_lib ''fe80::2'' 7 3 sample_duid [0xab, 0xcd, 0xef]
              (Some sample_server_duid) None
            = Inr (msg, (''fe80::2'', 547)))"
  using send_dhcpv6_destination
          [of 1 sample_duid None None scenario_lib "''fe80::2''" 7 "[0xab, 0xcd, 0xef]"]
        send_dhcpv6_destination
          [of 3 sample_duid None "Some sample_server_duid" scenario_lib "''fe80::2''" 7
              "[0xab, 0xcd, 0xef]"]
  by (simp add: sample_duid_def sample_server_duid_def)

lemma parse_options_loop_end:
  "length data \<le> offset \<Longrightarrow> parse_options_loop data offset options = Inr options"
  by (subst parse_options_loop.simps) simp

lemma parse_options_loop_step:
  assumes d: "drop offset data = [c1, c0, l1, l0] @ v @ rest"
    and l: "256 * unat l1 + unat l0 = length v"
  shows "parse_options_loop data offset options
           = parse_options_loop data (offset + 4 + length v)
               (options(256 * unat c1 + unat c0 \<mapsto> v))"
proof -
  have len: "length data - offset = 4 + length v + length rest"
    using arg_cong [OF d, of length] by simp
  have a: "offset < length data" and b: "\<not> offset + 4 > length data"
    and c: "\<not> offset + 4 + length v > length data"
    using len by auto
  have u1: "unpack_H (slice data offset (offset + 2)) = Inr (256 * unat c1 + unat c0)"
    using d by (simp add: slice_def unpack_H_def)
  have "drop (offset + 2) data = drop 2 (drop offset data)" by (simp add: add.commute)
  then have u2: "unpack_H (slice data (offset + 2) (offset + 4)) = Inr (length v)"
    using d l by (simp add: slice_def unpack_H_def)
  have "drop (offset + 4) data = drop 4 (drop offset data)" by (simp add: add.commute)
  then have s3: "slice data (offset + 4) (offset + 4 + length v) = v"
    using d by (simp add: slice_def)
  show ?thesis
    by (subst parse_options_loop.simps)
       (simp only: a b c u1 u2 s3 if_True if_False sum.case)
qed

lemma drop_after:
  "drop offset data = a @ rest \<Longrightarrow> n = offset + length a \<Longrightarrow> drop n data = rest"
  by (metis add.commute append_eq_conv_conj drop_drop)

lemma parse_sample_advertise:
  "\<exists>options. parse_dhcpv6_options sample_advertise 4 = Inr options
      \<and> options 2 = Some sample_server_duid \<and> options 1 = Some sample_duid"
proof -
  have d1: "drop 4 sample_advertise
              = [0, 2, 0, 10] @ sample_server_duid @ ([0, 1, 0, 14] @ sample_duid)"
    by (simp add: sample_advertise_def)
  have d1': "drop 4 sample_advertise
              = ([0, 2, 0, 10] @ sample_server_duid) @ ([0, 1, 0, 14] @ sample_duid @ [])"
    by (simp add: sample_advertise_def)
  have d2: "drop (4 + 4 + length sample_server_duid) sample_advertise
              = [0, 1, 0, 14] @ sample_duid @ []"
    by (rule drop_after [OF d1']) simp
  have l: "length sample_advertise = 4 + 4 + length sample_server_duid + 4 + length sample_duid"
    by (simp add: sample_advertise_def)
  show ?thesis
    unfolding parse_dhcpv6_options_def
    apply (subst parse_options_loop_step [OF d1])
     apply (simp add: sample_server_duid_def)
    apply (subst parse_options_loop_step [OF d2])
     apply (simp add: sample_duid_def)
    apply (subst parse_options_loop_end)
     apply (simp add: l)
    apply simp
    done
qed

lemma wait_sample_advertise:
  "\<exists>options. wait_for_dhcpv6_response [0xab, 0xcd, 0xef] 2 (Datagram sample_advertise a # evs)
                 = Ok (Some (sample_advertise, a, options), evs)
      \<and> options 2 = Some sample_server_duid \<and> options 1 = Some sample_duid"
proof -
  obtain options where o: "parse_dhcpv6_options sample_advertise 4 = Inr options"
    "options 2 = Some sample_server_duid" "options 1 = Some sample_duid"
    using parse_sample_advertise by blast
  have t: "take 1024 sample_advertise = sample_advertise"
    by (simp add: sample_advertise_def sample_server_duid_def sample_duid_def)
  have h: "4 \<le> length sample_advertise" "uint (sample_advertise ! 0) = 2"
    "slice sample_advertise 1 4 = [0xab, 0xcd, 0xef]"
    by (simp_all add: sample_advertise_def slice_def)
  show ?thesis using o h by (simp add: t)
qed

text \<open>
  C8 as stated fails: the destination of a REQUEST is not the address the ADVERTISE
  came from. Here the advertisement arrives from \<open>fe80::1c\<close>, and the REQUEST built with
  the server identifier it carries goes to the configured \<open>fe80::2\<close>.
\<close>

theorem request_not_sent_to_advertising_server:
  "\<exists>adv a options msg.
      wait_for_dhcpv6_response [0xab, 0xcd, 0xef] 2 [Datagram sample_advertise (''fe80::1c'', 547)]
        = Ok (Some (adv, a, options), [])
      \<and> send_dhcpv6 scenario_lib ''fe80::2'' 7 3 sample_duid [0xab, 0xcd, 0xef] (options 2) None
        = Inr (msg, (''fe80::2'', 547))
      \<and> fst a = ''fe80::1c'' \<and> (''fe80::2'', 547 :: nat) \<noteq> (fst a, 547)"
proof -
  obtain options where o:
    "wait_for_dhcpv6_response [0xab, 0xcd, 0xef] 2 [Datagram sample_advertise (''fe80::1c'', 547)]
       = Ok (Some (sample_advertise, (''fe80::1c'', 547), options), [])"
    "options 2 = Some sample_server_duid"
    using wait_sample_advertise [of "(''fe80::1c'', 547)" "[]"] by blast
  obtain msg where
    "send_dhcpv6 scenario_lib ''fe80::2'' 7 3 sample_duid [0xab, 0xcd, 0xef]
       (Some sample_server_duid) None = Inr (msg, (''fe80::2'', 547))"
    using create_dhcpv6_msg_server
          [of 3 sample_duid None sample_server_duid scenario_lib 7 "[0xab, 0xcd, 0xef]"]
    by (auto simp: send_dhcpv6_def sample_duid_def sample_server_duid_def)
  with o show ?thesis by auto
qed

section \<open>The release path\<close>

lemma foldl_send_release:
  "foldl (\<lambda>w l. send_release lib l w) w ls
     = w\<lparr>sent := sent w @ concat (map (\<lambda>l. case release_packet lib l of
                                                 Inl e \<Rightarrow> [] | Inr d \<Rightarrow> [d]) ls)\<rparr>"
  by (induction ls arbitrary: w) (auto simp: send_release_def split: sum.splits)

lemma foldl_send_release_v6:
  "foldl (\<lambda>w l. send_release_v6 lib l w) w ls
     = w\<lparr>sent := sent w @ concat (map (\<lambda>l. case release_packet_v6 lib l of
                                                 Inl e \<Rightarrow> [] | Inr d \<Rightarrow> [d]) ls)\<rparr>"
  by (induction ls arbitrary: w) (auto simp: send_release_v6_def split: sum.splits)

lemma handle_exit_eq:
  "handle_exit lib w
     = (w\<lparr>stop_requested := True,
           sent := sent w @ concat (map (\<lambda>l. case release_packet lib l of
                                                  Inl e \<Rightarrow> [] | Inr d \<Rightarrow> [d]) (clients w))\<rparr>, 0)"
  by (simp add: handle_exit_def foldl_send_release)

lemma handle_exit_v6_eq:
  "handle_exit_v6 lib w
     = (w\<lparr>stop_requested := True,
           sent := sent w @ concat (map (\<lambda>l. case release_packet_v6 lib l of
                                                  Inl e \<Rightarrow> [] | Inr d \<Rightarrow> [d]) (clients w))\<rparr>, 0)"
  by (simp add: handle_exit_v6_def foldl_send_release_v6)

text \<open>
  C4, as amended. \<open>handle_exit\<close> walks the registry and leaves it as it is: one run
  sends, in registry order, the RELEASE of every lease for which the message can be
  built, and a second run from the state the first one leaves sends the same messages
  once more.
\<close>

theorem handle_exit_keeps_registry:
  "clients (fst (handle_exit lib w)) = clients w
   \<and> sent (fst (handle_exit lib w))
       = sent w @ concat (map (\<lambda>l. case release_packet lib l of
                                       Inl e \<Rightarrow> [] | Inr d \<Rightarrow> [d]) (clients w))
   \<and> sent (fst (handle_exit lib (fst (handle_exit lib w))))
       = sent (fst (handle_exit lib w))
           @ concat (map (\<lambda>l. case release_packet lib l of
                                 Inl e \<Rightarrow> [] | Inr d \<Rightarrow> [d]) (clients w))
   \<and> clients (fst (handle_exit_v6 lib w6)) = clients w6
   \<and> sent (fst (handle_exit_v6 lib w6))
       = sent w6 @ concat (map (\<lambda>l. case release_packet_v6 lib l of
                                        Inl e \<Rightarrow> [] | Inr d \<Rightarrow> [d]) (clients w6))
   \<and> sent (fst (handle_exit_v6 lib (fst (handle_exit_v6 lib w6))))
       = sent (fst (handle_exit_v6 lib w6))
           @ concat (map (\<lambda>l. case release_packet_v6 lib l of
                                 Inl e \<Rightarrow> [] | Inr d \<Rightarrow> [d]) (clients w6))"
  by (simp add: handle_exit_eq handle_exit_v6_eq)

lemma release_packet_sample: "\<exists>d. release_packet scenario_lib sample_lease = Inr d"
  by (simp add: release_packet_def sample_lease_def sample_mac_def random_mac_def
        scenario_lib_def build_bootp_def)

text \<open>
  C4 as stated fails: with one lease in the registry, running the release path twice
  sends the RELEASE of that lease twice.
\<close>

theorem handle_exit_twice_releases_twice:
  "\<exists>d. release_packet scenario_lib sample_lease = Inr d
      \<and> count_list (sent (fst (handle_exit scenario_lib
                (fst (handle_exit scenario_lib (world0\<lparr>clients := [sample_lease]\<rparr>)))))) d = 2"
proof -
  obtain d where "release_packet scenario_lib sample_lease = Inr d"
    using release_packet_sample by blast
  then show ?thesis by (simp add: handle_exit_eq world0_def)
qed

section \<open>Packets and their options\<close>

lemma slice_append1: "b \<le> length xs \<Longrightarrow> slice (xs @ ys) a b = slice xs a b"
  by (simp add: slice_def)

lemma build_bootp_ok:
  assumes "0 \<le> xid" "xid \<le> 4294967295" "length mac = 6"
  shows "\<exists>b. build_bootp 1 0 mac xid = Inr b \<and> length b = 240
           \<and> struct_pack [FI] [AInt xid] = Inr (slice b 4 8) \<and> slice b 28 34 = mac"
  using assms by (simp add: build_bootp_def slice_def)

lemma dhcp_option_step:
  assumes d: "drop i data = [t, l] @ v @ rest" and l: "unat l = length v" and t: "t \<noteq> 0xff"
  shows "dhcp_option data i tag
           = (if t = tag then Some v else dhcp_option data (i + 2 + length v) tag)"
proof -
  have len: "length data - i = 2 + length v + length rest"
    using arg_cong [OF d, of length] by simp
  then have a: "i < length data" and b: "i + 1 < length data"
    and c: "i + 2 + length v \<le> length data"
    by auto
  have n0: "data ! i = t"
    using d a by (metis append_Cons hd_drop_conv_nth list.sel(1))
  have "drop (i + 1) data = drop 1 (drop i data)" by (simp add: add.commute)
  then have "drop (i + 1) data = l # v @ rest" using d by simp
  then have n1: "data ! (i + 1) = l"
    using b by (metis hd_drop_conv_nth list.sel(1))
  have "drop (i + 2) data = drop 2 (drop i data)" by (simp add: add.commute)
  then have s: "slice data (i + 2) (i + 2 + length v) = v"
    using d by (simp add: slice_def)
  show ?thesis
    by (subst dhcp_option.simps) (simp only: a b c n0 n1 l s t if_True if_False simp_thms)
qed


lemma int_octets:
  fixes x :: int
  shows "x = 16777216 * (x div 16777216) + 65536 * (x div 65536 mod 256)
             + 256 * (x div 256 mod 256) + x mod 256"
proof -
  have a: "x div 65536 = x div 256 div 256" by (simp add: zdiv_zmult2_eq [symmetric])
  have b: "x div 16777216 = x div 65536 div 256" by (simp add: zdiv_zmult2_eq [symmetric])
  have 1: "x = 256 * (x div 256) + x mod 256" by simp
  have 2: "x div 256 = 256 * (x div 65536) + x div 256 mod 256" unfolding a by simp
  have 3: "x div 65536 = 256 * (x div 16777216) + x div 65536 mod 256" unfolding b by simp
  show ?thesis using 1 2 3 by linarith
qed

lemma top_octet:
  fixes x :: int
  assumes "0 \<le> x" "x \<le> 4294967295"
  shows "x div 16777216 mod 256 = x div 16777216"
proof -
  have "0 \<le> x div 16777216" using assms(1) by simp
  moreover have "x div 16777216 < 256"
    using zdiv_mono1 [of x 4294967295 16777216] assms(2) by simp
  ultimately show ?thesis by simp
qed

lemma byte_eq_iff: "(word_of_int k :: byte) = word_of_int m \<longleftrightarrow> k mod 256 = m mod 256"
  by (simp add: word_of_int_eq_iff take_bit_eq_mod)

lemma pack_I_eq:
  "0 \<le> x \<Longrightarrow> x \<le> 4294967295 \<Longrightarrow>
   struct_pack [FI] [AInt x]
     = Inr [word_of_int (x div 16777216), word_of_int (x div 65536 mod 256),
            word_of_int (x div 256 mod 256), word_of_int (x mod 256)]"
  by simp

lemma pack_I_inj:
  assumes "0 \<le> a" "a \<le> 4294967295" "0 \<le> b" "b \<le> 4294967295"
    and "struct_pack [FI] [AInt a] = struct_pack [FI] [AInt b]"
  shows "a = b"
proof -
  from assms(5) have
    "(word_of_int (a div 16777216) :: byte) = word_of_int (b div 16777216)"
    "(word_of_int (a div 65536 mod 256) :: byte) = word_of_int (b div 65536 mod 256)"
    "(word_of_int (a div 256 mod 256) :: byte) = word_of_int (b div 256 mod 256)"
    "(word_of_int (a mod 256) :: byte) = word_of_int (b mod 256)"
    unfolding pack_I_eq [OF assms(1,2)] pack_I_eq [OF assms(3,4)] by simp_all
  then have eqs: "a div 16777216 = b div 16777216"
    "a div 65536 mod 256 = b div 65536 mod 256"
    "a div 256 mod 256 = b div 256 mod 256" "a mod 256 = b mod 256"
    unfolding byte_eq_iff top_octet [OF assms(1,2)] top_octet [OF assms(3,4)] mod_mod_trivial
    by blast+
  have "a = 16777216 * (a div 16777216) + 65536 * (a div 65536 mod 256)
             + 256 * (a div 256 mod 256) + a mod 256"
    by (rule int_octets)
  also have "\<dots> = 16777216 * (b div 16777216) + 65536 * (b div 65536 mod 256)
             + 256 * (b div 256 mod 256) + b mod 256"
    by (simp only: eqs)
  also have "\<dots> = b"
    by (rule int_octets [symmetric])
  finally show ?thesis .
qed

lemma dhcp_option_step':
  assumes "drop i data = [t, l] @ v @ rest" "unat l = length v" "t \<noteq> 0xff"
    and "j = i + 2 + length v"
  shows "dhcp_option data i tag = (if t = tag then Some v else dhcp_option data j tag)"
  using dhcp_option_step [OF assms(1-3)] assms(4) by simp

lemma release_options:
  fixes b mac a s :: bytes
  assumes "length b = 240" "length mac = 6" "length a = 4" "length s = 4"
  defines "pkt \<equiv> b @ [0x35, 0x01, 0x07] @ [0x3d, 0x07, 0x01] @ mac
                    @ [0x32, 0x04] @ a @ [0x36, 0x04] @ s @ [0xff]"
  shows "dhcp_option pkt 240 53 = Some [7]" "dhcp_option pkt 240 61 = Some (1 # mac)"
    "dhcp_option pkt 240 50 = Some a" "dhcp_option pkt 240 54 = Some s"
proof -
  have d0: "drop 240 pkt = [53, 1] @ [7] @ ([61, 7, 1] @ mac @ [50, 4] @ a @ [54, 4] @ s @ [255])"
    by (simp add: pkt_def assms)
  have d1: "drop 243 pkt = [61, 7] @ (1 # mac) @ ([50, 4] @ a @ [54, 4] @ s @ [255])"
    by (simp add: pkt_def assms)
  have d2: "drop 252 pkt = [50, 4] @ a @ ([54, 4] @ s @ [255])"
    by (simp add: pkt_def assms)
  have d3: "drop 258 pkt = [54, 4] @ s @ [255]"
    by (simp add: pkt_def assms)
  have s0: "dhcp_option pkt 240 tag = (if 53 = tag then Some [7] else dhcp_option pkt 243 tag)" for tag
    by (rule dhcp_option_step' [OF d0]) simp_all
  have s1: "dhcp_option pkt 243 tag = (if 61 = tag then Some (1 # mac) else dhcp_option pkt 252 tag)"
    for tag
    by (rule dhcp_option_step' [OF d1]) (simp_all add: assms)
  have s2: "dhcp_option pkt 252 tag = (if 50 = tag then Some a else dhcp_option pkt 258 tag)" for tag
    by (rule dhcp_option_step' [OF d2]) (simp_all add: assms)
  have s3: "dhcp_option pkt 258 tag = (if 54 = tag then Some s else dhcp_option pkt 264 tag)" for tag
    by (rule dhcp_option_step' [OF d3]) (simp_all add: assms)
  show "dhcp_option pkt 240 53 = Some [7]" by (simp add: s0)
  show "dhcp_option pkt 240 61 = Some (1 # mac)" by (simp add: s0 s1)
  show "dhcp_option pkt 240 50 = Some a" by (simp add: s0 s1 s2)
  show "dhcp_option pkt 240 54 = Some s" by (simp add: s0 s1 s2 s3)
qed

lemma release_packet_contents:
  assumes "length mac = 6" "0 \<le> xid" "xid \<le> 4294967295"
    and "inet_aton lib ip = Inr a" "length a = 4"
    and "inet_aton lib server_ip = Inr s" "length s = 4"
  shows "\<exists>pkt. release_packet lib (mac, xid, ip, server_ip) = Inr (pkt, (server_ip, 67))
           \<and> struct_pack [FI] [AInt xid] = Inr (slice pkt 4 8)
           \<and> slice pkt 28 34 = mac
           \<and> dhcp_option pkt 240 53 = Some [7]
           \<and> dhcp_option pkt 240 61 = Some (1 # mac)
           \<and> dhcp_option pkt 240 50 = Some a
           \<and> dhcp_option pkt 240 54 = Some s"
proof -
  obtain b where b: "build_bootp 1 0 mac xid = Inr b" "length b = 240"
    "struct_pack [FI] [AInt xid] = Inr (slice b 4 8)" "slice b 28 34 = mac"
    using build_bootp_ok [OF assms(2,3,1)] by blast
  let ?pkt = "b @ [0x35, 0x01, 0x07] @ [0x3d, 0x07, 0x01] @ mac
                @ [0x32, 0x04] @ a @ [0x36, 0x04] @ s @ [0xff]"
  have r: "release_packet lib (mac, xid, ip, server_ip) = Inr (?pkt, (server_ip, 67))"
    using b(1) assms(4,6) by (simp add: release_packet_def)
  have x: "slice ?pkt 4 8 = slice b 4 8" "slice ?pkt 28 34 = slice b 28 34"
    using b(2) by (simp_all add: slice_append1)
  show ?thesis
    using r b(3,4) x release_options [OF b(2) assms(1,5,7)] by (intro exI [of _ ?pkt]) simp
qed

lemma length_octets:
  assumes "n \<le> 65535"
  shows "256 * unat (word_of_int (int n div 256) :: byte)
           + unat (word_of_int (int n mod 256) :: byte) = n"
proof -
  have "int n div 256 \<le> 65535 div 256"
    using zdiv_mono1 [of "int n" 65535 256] assms by simp
  then have "int n div 256 < 256" by simp
  then have 1: "unat (word_of_int (int n div 256) :: byte) = nat (int n div 256)"
    by (intro unat_byte) simp_all
  have 2: "unat (word_of_int (int n mod 256) :: byte) = nat (int n mod 256)"
    by (intro unat_byte) simp_all
  have "nat (int n div 256) = n div 256" "nat (int n mod 256) = n mod 256"
    by (simp_all add: nat_div_distrib nat_mod_distrib)
  then show ?thesis unfolding 1 2 by simp
qed

lemma parse_options_loop_step':
  assumes "drop offset data = [c1, c0, l1, l0] @ v @ rest"
    and "256 * unat l1 + unat l0 = length v"
    and "j = offset + 4 + length v" and "k = 256 * unat c1 + unat c0"
  shows "parse_options_loop data offset options = parse_options_loop data j (options(k \<mapsto> v))"
  using parse_options_loop_step [OF assms(1,2)] assms(3,4) by simp

lemma parse_created_server:
  fixes tx duid s :: bytes and m :: byte
  assumes "length tx = 3" "length duid \<le> 65535" "length s \<le> 65535"
  defines "msg \<equiv> [m] @ tx
           @ [0, 1, word_of_int (int (length duid) div 256), word_of_int (int (length duid) mod 256)]
           @ duid
           @ [0, 2, word_of_int (int (length s) div 256), word_of_int (int (length s) mod 256)]
           @ s @ [0, 8, 0, 2, 0, 0] @ [0, 6, 0, 4, 0, 23, 0, 24]"
  shows "parse_dhcpv6_options msg 4
           = Inr [1 \<mapsto> duid, 2 \<mapsto> s, 8 \<mapsto> [0, 0], 6 \<mapsto> [0, 23, 0, 24]]"
proof -
  let ?dh = "word_of_int (int (length duid) div 256) :: byte"
  let ?dl = "word_of_int (int (length duid) mod 256) :: byte"
  let ?sh = "word_of_int (int (length s) div 256) :: byte"
  let ?sl = "word_of_int (int (length s) mod 256) :: byte"
  let ?r3 = "[0, 6, 0, 4, 0, 23, 0, 24] :: bytes"
  let ?r2 = "[0, 8, 0, 2, 0, 0] @ ?r3"
  let ?r1 = "[0, 2, ?sh, ?sl] @ s @ ?r2"
  have d1: "drop 4 msg = [0, 1, ?dh, ?dl] @ duid @ ?r1"
    by (simp add: msg_def assms)
  have d1': "drop 4 msg = ([0, 1, ?dh, ?dl] @ duid) @ ([0, 2, ?sh, ?sl] @ s @ ?r2)"
    using d1 by simp
  have d2: "drop (8 + length duid) msg = [0, 2, ?sh, ?sl] @ s @ ?r2"
    by (rule drop_after [OF d1']) simp
  have d2': "drop (8 + length duid) msg = ([0, 2, ?sh, ?sl] @ s) @ ([0, 8, 0, 2] @ [0, 0] @ ?r3)"
    using d2 by simp
  have d3: "drop (12 + length duid + length s) msg = [0, 8, 0, 2] @ [0, 0] @ ?r3"
    by (rule drop_after [OF d2']) simp
  have d3': "drop (12 + length duid + length s) msg
               = ([0, 8, 0, 2] @ [0, 0]) @ ([0, 6, 0, 4] @ [0, 23, 0, 24] @ [])"
    using d3 by simp
  have d4: "drop (18 + length duid + length s) msg = [0, 6, 0, 4] @ [0, 23, 0, 24] @ []"
    by (rule drop_after [OF d3']) simp
  have l: "length msg = 26 + length duid + length s"
    by (simp add: msg_def assms)
  have "parse_options_loop msg 4 Map.empty
          = parse_options_loop msg (8 + length duid) [1 \<mapsto> duid]"
    by (rule parse_options_loop_step' [OF d1]) (simp_all add: length_octets assms)
  also have "\<dots> = parse_options_loop msg (12 + length duid + length s) [1 \<mapsto> duid, 2 \<mapsto> s]"
    by (rule parse_options_loop_step' [OF d2]) (simp_all add: length_octets assms)
  also have "\<dots> = parse_options_loop msg (18 + length duid + length s)
                      [1 \<mapsto> duid, 2 \<mapsto> s, 8 \<mapsto> [0, 0]]"
    by (rule parse_options_loop_step' [OF d3]) simp_all
  also have "\<dots> = parse_options_loop msg (26 + length duid + length s)
                      [1 \<mapsto> duid, 2 \<mapsto> s, 8 \<mapsto> [0, 0], 6 \<mapsto> [0, 23, 0, 24]]"
    by (rule parse_options_loop_step' [OF d4]) simp_all
  also have "\<dots> = Inr [1 \<mapsto> duid, 2 \<mapsto> s, 8 \<mapsto> [0, 0], 6 \<mapsto> [0, 23, 0, 24]]"
    by (rule parse_options_loop_end) (simp add: l)
  finally show ?thesis by (simp add: parse_dhcpv6_options_def)
qed

lemma parse_created_plain:
  fixes tx duid :: bytes and m :: byte
  assumes "length tx = 3" "length duid \<le> 65535"
  defines "msg \<equiv> [m] @ tx
           @ [0, 1, word_of_int (int (length duid) div 256), word_of_int (int (length duid) mod 256)]
           @ duid @ [0, 8, 0, 2, 0, 0] @ [0, 6, 0, 4, 0, 23, 0, 24]"
  shows "parse_dhcpv6_options msg 4 = Inr [1 \<mapsto> duid, 8 \<mapsto> [0, 0], 6 \<mapsto> [0, 23, 0, 24]]"
proof -
  let ?dh = "word_of_int (int (length duid) div 256) :: byte"
  let ?dl = "word_of_int (int (length duid) mod 256) :: byte"
  let ?r3 = "[0, 6, 0, 4, 0, 23, 0, 24] :: bytes"
  let ?r2 = "[0, 8, 0, 2, 0, 0] @ ?r3"
  have d1: "drop 4 msg = [0, 1, ?dh, ?dl] @ duid @ ?r2"
    by (simp add: msg_def assms)
  have d1': "drop 4 msg = ([0, 1, ?dh, ?dl] @ duid) @ ([0, 8, 0, 2] @ [0, 0] @ ?r3)"
    using d1 by simp
  have d3: "drop (8 + length duid) msg = [0, 8, 0, 2] @ [0, 0] @ ?r3"
    by (rule drop_after [OF d1']) simp
  have d3': "drop (8 + length duid) msg
               = ([0, 8, 0, 2] @ [0, 0]) @ ([0, 6, 0, 4] @ [0, 23, 0, 24] @ [])"
    using d3 by simp
  have d4: "drop (14 + length duid) msg = [0, 6, 0, 4] @ [0, 23, 0, 24] @ []"
    by (rule drop_after [OF d3']) simp
  have l: "length msg = 22 + length duid"
    by (simp add: msg_def assms)
  have "parse_options_loop msg 4 Map.empty
          = parse_options_loop msg (8 + length duid) [1 \<mapsto> duid]"
    by (rule parse_options_loop_step' [OF d1]) (simp_all add: length_octets assms)
  also have "\<dots> = parse_options_loop msg (14 + length duid) [1 \<mapsto> duid, 8 \<mapsto> [0, 0]]"
    by (rule parse_options_loop_step' [OF d3]) simp_all
  also have "\<dots> = parse_options_loop msg (22 + length duid)
                      [1 \<mapsto> duid, 8 \<mapsto> [0, 0], 6 \<mapsto> [0, 23, 0, 24]]"
    by (rule parse_options_loop_step' [OF d4]) simp_all
  also have "\<dots> = Inr [1 \<mapsto> duid, 8 \<mapsto> [0, 0], 6 \<mapsto> [0, 23, 0, 24]]"
    by (rule parse_options_loop_end) (simp add: l)
  finally show ?thesis by (simp add: parse_dhcpv6_options_def)
qed

section \<open>Contents of a RELEASE\<close>

lemma release_packet_v6_contents:
  assumes "length tx = 3" "length duid \<le> 65535" "length sd \<le> 65535"
  shows "\<exists>msg options.
           release_packet_v6 lib (duid, tx, sd, prefix, server_ip) = Inr (msg, (server_ip, 547))
           \<and> uint (msg ! 0) = 8 \<and> slice msg 1 4 = tx
           \<and> parse_dhcpv6_options msg 4 = Inr options
           \<and> options 1 = Some duid
           \<and> options 2 = (if sd = [] then None else Some sd)
           \<and> options 25 = None"
proof (cases "sd = []")
  case True
  let ?msg = "[word_of_int 8] @ tx
           @ [0, 1, word_of_int (int (length duid) div 256), word_of_int (int (length duid) mod 256)]
           @ duid @ [0, 8, 0, 2, 0, 0] @ [0, 6, 0, 4, 0, 23, 0, 24]"
  have c: "create_dhcpv6_msg lib 0 8 tx duid None (Some sd) = Inr ?msg"
    by (rule create_dhcpv6_msg_plain) (simp_all add: assms True)
  have p: "parse_dhcpv6_options ?msg 4 = Inr [1 \<mapsto> duid, 8 \<mapsto> [0, 0], 6 \<mapsto> [0, 23, 0, 24]]"
    by (rule parse_created_plain [OF assms(1,2)])
  have h: "uint (?msg ! 0) = 8" "slice ?msg 1 4 = tx"
    using assms(1) by (simp_all add: slice_def)
  show ?thesis
    unfolding release_packet_v6_def using c p h True
    by (intro exI [of _ ?msg] exI [of _ "[1 \<mapsto> duid, 8 \<mapsto> [0, 0], 6 \<mapsto> [0, 23, 0, 24]]"]) simp
next
  case False
  let ?msg = "[word_of_int 8] @ tx
           @ [0, 1, word_of_int (int (length duid) div 256), word_of_int (int (length duid) mod 256)]
           @ duid
           @ [0, 2, word_of_int (int (length sd) div 256), word_of_int (int (length sd) mod 256)]
           @ sd @ [0, 8, 0, 2, 0, 0] @ [0, 6, 0, 4, 0, 23, 0, 24]"
  have c: "create_dhcpv6_msg lib 0 8 tx duid None (Some sd) = Inr ?msg"
    by (rule create_dhcpv6_msg_server) (simp_all add: assms False)
  have p: "parse_dhcpv6_options ?msg 4
             = Inr [1 \<mapsto> duid, 2 \<mapsto> sd, 8 \<mapsto> [0, 0], 6 \<mapsto> [0, 23, 0, 24]]"
    by (rule parse_created_server [OF assms])
  have h: "uint (?msg ! 0) = 8" "slice ?msg 1 4 = tx"
    using assms(1) by (simp_all add: slice_def)
  show ?thesis
    unfolding release_packet_v6_def using c p h False
    by (intro exI [of _ ?msg]
          exI [of _ "[1 \<mapsto> duid, 2 \<mapsto> sd, 8 \<mapsto> [0, 0], 6 \<mapsto> [0, 23, 0, 24]]"]) simp
qed

lemma handle_exit_sends:
  assumes "l \<in> set (clients w)" "release_packet lib l = Inr d"
  shows "d \<in> set (sent (fst (handle_exit lib w)))"
  using assms by (cases d) (auto simp: handle_exit_eq intro!: bexI [of _ l])

lemma handle_exit_v6_sends:
  assumes "l \<in> set (clients w)" "release_packet_v6 lib l = Inr d"
  shows "d \<in> set (sent (fst (handle_exit_v6 lib w)))"
  using assms by (cases d) (auto simp: handle_exit_v6_eq intro!: bexI [of _ l])

text \<open>
  An ADVERTISE whose option 2 has length 0 passes the test \<open>2 not in options\<close>: the
  server DUID a client records from it is empty.
\<close>

lemma advertise_with_empty_server_duid:
  "wait_for_dhcpv6_response [0xab, 0xcd, 0xef] 2
       (Datagram [2, 0xab, 0xcd, 0xef, 0, 2, 0, 0] a # evs)
     = Ok (Some ([2, 0xab, 0xcd, 0xef, 0, 2, 0, 0], a, [2 \<mapsto> []]), evs)"
proof -
  let ?d = "[2, 0xab, 0xcd, 0xef, 0, 2, 0, 0] :: bytes"
  have d: "drop 4 ?d = [0, 2, 0, 0] @ [] @ []" by simp
  have "parse_options_loop ?d 4 Map.empty = parse_options_loop ?d 8 [2 \<mapsto> []]"
    by (rule parse_options_loop_step' [OF d]) simp_all
  also have "\<dots> = Inr [2 \<mapsto> []]"
    by (rule parse_options_loop_end) simp
  finally have p: "parse_dhcpv6_options ?d 4 = Inr [2 \<mapsto> []]"
    by (simp add: parse_dhcpv6_options_def)
  show ?thesis by (simp add: p slice_def)
qed

text \<open>
  C7, as amended. For a lease in the registry, \<open>handle_exit\<close> sends its RELEASE to the
  server address recorded in the lease (port 67, or 547 for DHCPv6). The DHCPv4 message
  carries the lease's transaction id and hardware address, message type 7, the client
  identifier (tag 61), the leased address (tag 50) and the server identifier (tag 54).
  The DHCPv6 message has type 8 and carries the lease's transaction id, its DUID
  (option 1) and the server DUID (option 2, unless that DUID is empty); it has no IA_PD
  option, so the delegated prefix is not in it. The hypotheses say that the lease is
  well-formed: six octets of hardware address, a transaction id in range, address strings
  that \<open>inet_aton\<close> converts to four octets, identifiers that fit their length fields.
\<close>

theorem release_message_contents:
  assumes "length mac = 6" "0 \<le> xid" "xid \<le> 4294967295"
    and "inet_aton lib ip = Inr a" "length a = 4"
    and "inet_aton lib server_ip = Inr s" "length s = 4"
    and "(mac, xid, ip, server_ip) \<in> set (clients w)"
    and "length transaction_id = 3" "length duid \<le> 65535" "length server_duid \<le> 65535"
    and "(duid, transaction_id, server_duid, prefix, server_ip6) \<in> set (clients w6)"
  shows "(\<exists>pkt. release_packet lib (mac, xid, ip, server_ip) = Inr (pkt, (server_ip, 67))
           \<and> (pkt, (server_ip, 67)) \<in> set (sent (fst (handle_exit lib w)))
           \<and> struct_pack [FI] [AInt xid] = Inr (slice pkt 4 8)
           \<and> slice pkt 28 34 = mac
           \<and> dhcp_option pkt 240 53 = Some [7]
           \<and> dhcp_option pkt 240 61 = Some (1 # mac)
           \<and> dhcp_option pkt 240 50 = Some a
           \<and> dhcp_option pkt 240 54 = Some s)
       \<and> (\<exists>msg options.
             release_packet_v6 lib (duid, transaction_id, server_duid, prefix, server_ip6)
               = Inr (msg, (server_ip6, 547))
           \<and> (msg, (server_ip6, 547)) \<in> set (sent (fst (handle_exit_v6 lib w6)))
           \<and> uint (msg ! 0) = 8 \<and> slice msg 1 4 = transaction_id
           \<and> parse_dhcpv6_options msg 4 = Inr options
           \<and> options 1 = Some duid
           \<and> options 2 = (if server_duid = [] then None else Some server_duid)
           \<and> options 25 = None)"
proof (rule conjI)
  obtain pkt where p: "release_packet lib (mac, xid, ip, server_ip) = Inr (pkt, (server_ip, 67))"
    "struct_pack [FI] [AInt xid] = Inr (slice pkt 4 8)" "slice pkt 28 34 = mac"
    "dhcp_option pkt 240 53 = Some [7]" "dhcp_option pkt 240 61 = Some (1 # mac)"
    "dhcp_option pkt 240 50 = Some a" "dhcp_option pkt 240 54 = Some s"
    using release_packet_contents [OF assms(1-7)] by blast
  with handle_exit_sends [OF assms(8) p(1)]
  show "\<exists>pkt. release_packet lib (mac, xid, ip, server_ip) = Inr (pkt, (server_ip, 67))
           \<and> (pkt, (server_ip, 67)) \<in> set (sent (fst (handle_exit lib w)))
           \<and> struct_pack [FI] [AInt xid] = Inr (slice pkt 4 8)
           \<and> slice pkt 28 34 = mac
           \<and> dhcp_option pkt 240 53 = Some [7]
           \<and> dhcp_option pkt 240 61 = Some (1 # mac)
           \<and> dhcp_option pkt 240 50 = Some a
           \<and> dhcp_option pkt 240 54 = Some s"
    by blast
next
  obtain msg options where m:
    "release_packet_v6 lib (duid, transaction_id, server_duid, prefix, server_ip6)
       = Inr (msg, (server_ip6, 547))"
    "uint (msg ! 0) = 8" "slice msg 1 4 = transaction_id"
    "parse_dhcpv6_options msg 4 = Inr options" "options 1 = Some duid"
    "options 2 = (if server_duid = [] then None else Some server_duid)" "options 25 = None"
    using release_packet_v6_contents [OF assms(9-11), of lib prefix server_ip6] by blast
  with handle_exit_v6_sends [OF assms(12) m(1)]
  show "\<exists>msg options.
             release_packet_v6 lib (duid, transaction_id, server_duid, prefix, server_ip6)
               = Inr (msg, (server_ip6, 547))
           \<and> (msg, (server_ip6, 547)) \<in> set (sent (fst (handle_exit_v6 lib w6)))
           \<and> uint (msg ! 0) = 8 \<and> slice msg 1 4 = transaction_id
           \<and> parse_dhcpv6_options msg 4 = Inr options
           \<and> options 1 = Some duid
           \<and> options 2 = (if server_duid = [] then None else Some server_duid)
           \<and> options 25 = None"
    by blast
qed

theorem release_message_contents_witness:
  "(\<exists>pkt. release_packet scenario_lib sample_lease = Inr (pkt, (''10.0.0.1'', 67))
      \<and> (pkt, (''10.0.0.1'', 67))
           \<in> set (sent (fst (handle_exit scenario_lib (world0\<lparr>clients := [sample_lease]\<rparr>))))
      \<and> dhcp_option pkt 240 61 = Some (1 # sample_mac)
      \<and> dhcp_option pkt 240 50 = Some [10, 0, 0, 5]
      \<and> dhcp_option pkt 240 54 = Some [10, 0, 0, 1])
   \<and> (\<exists>msg options. release_packet_v6 scenario_lib sample_lease6 = Inr (msg, (''fe80::1c'', 547))
      \<and> (msg, (''fe80::1c'', 547))
           \<in> set (sent (fst (handle_exit_v6 scenario_lib (world0\<lparr>clients := [sample_lease6]\<rparr>))))
      \<and> parse_dhcpv6_options msg 4 = Inr options
      \<and> options 1 = Some sample_duid \<and> options 2 = Some sample_server_duid
      \<and> options 25 = None)"
proof -
  have h: "length sample_mac = 6" "(0::int) \<le> 0x11223344" "(0x11223344::int) \<le> 4294967295"
    "inet_aton scenario_lib ''10.0.0.5'' = Inr [10, 0, 0, 5]" "length [10, 0, 0, 5 :: byte] = 4"
    "inet_aton scenario_lib ''10.0.0.1'' = Inr [10, 0, 0, 1]" "length [10, 0, 0, 1 :: byte] = 4"
    "(sample_mac, 0x11223344, ''10.0.0.5'', ''10.0.0.1'')
       \<in> set (clients (world0\<lparr>clients := [sample_lease]\<rparr>))"
    "length [0xab, 0xcd, 0xef :: byte] = 3" "length sample_duid \<le> 65535"
    "length sample_server_duid \<le> 65535"
    "(sample_duid, [0xab, 0xcd, 0xef], sample_server_duid, Some ''fd00:1234:5678::/64'', ''fe80::1c'')
       \<in> set (clients (world0\<lparr>clients := [sample_lease6]\<rparr>))"
    by (simp_all add: sample_mac_def random_mac_def scenario_lib_def sample_lease_def
          sample_lease6_def sample_duid_def sample_server_duid_def)
  have n: "sample_server_duid \<noteq> []" by (simp add: sample_server_duid_def)
  show ?thesis
    using release_message_contents [OF h] n
    by (simp add: sample_lease_def sample_lease6_def) blast
qed

text \<open>
  C7 as stated fails for DHCPv6: two leases that differ only in the delegated prefix
  give the same RELEASE, and that message has no option 25.
\<close>

theorem release_v6_carries_no_prefix:
  "release_packet_v6 scenario_lib
       (sample_duid, [0xab, 0xcd, 0xef], sample_server_duid, Some ''fd00:1234:5678::/64'', ''fe80::1c'')
     = release_packet_v6 scenario_lib
       (sample_duid, [0xab, 0xcd, 0xef], sample_server_duid, Some ''2001:db8:1::/48'', ''fe80::1c'')
   \<and> (\<exists>msg options. release_packet_v6 scenario_lib sample_lease6 = Inr (msg, (''fe80::1c'', 547))
         \<and> parse_dhcpv6_options msg 4 = Inr options \<and> options 25 = None)"
proof -
  have "\<exists>msg options. release_packet_v6 scenario_lib sample_lease6 = Inr (msg, (''fe80::1c'', 547))
         \<and> parse_dhcpv6_options msg 4 = Inr options \<and> options 25 = None"
    unfolding sample_lease6_def
    using release_packet_v6_contents
            [of "[0xab, 0xcd, 0xef]" sample_duid sample_server_duid scenario_lib
                "Some ''fd00:1234:5678::/64''" "''fe80::1c''"]
    by (simp add: sample_duid_def sample_server_duid_def) blast
  then show ?thesis by (simp add: release_packet_v6_def)
qed

section \<open>Encoding and decoding the first message\<close>

lemma discover_packet:
  assumes "length mac = 6" "0 \<le> xid" "xid \<le> 4294967295"
  shows "\<exists>pkt. send_dhcp lib 1 mac xid None None = Inr (pkt, (''255.255.255.255'', 67))
           \<and> length pkt = 258
           \<and> struct_pack [FI] [AInt xid] = Inr (slice pkt 4 8)
           \<and> slice pkt 28 34 = mac
           \<and> scan_options pkt 240 1 = Inr True
           \<and> dhcp_option pkt 240 61 = Some (1 # mac)"
proof -
  obtain b where b: "build_bootp 1 0 mac xid = Inr b" "length b = 240"
    "struct_pack [FI] [AInt xid] = Inr (slice b 4 8)" "slice b 28 34 = mac"
    using build_bootp_ok [OF assms(2,3,1)] by blast
  define pkt where "pkt = b @ [0x35, 0x01, 0x01] @ [0x3d, 0x07, 0x01] @ mac
                            @ [0x37, 0x03, 0x03, 0x01, 0x06] @ [0xff]"
  have r: "send_dhcp lib 1 mac xid None None = Inr (pkt, (''255.255.255.255'', 67))"
    using b(1) by (simp add: send_dhcp_def bytes1_def pkt_def)
  have l: "length pkt = 258" using b(2) assms(1) by (simp add: pkt_def)
  have x: "slice pkt 4 8 = slice b 4 8" "slice pkt 28 34 = slice b 28 34"
    using b(2) by (simp_all add: slice_append1 pkt_def)
  have n: "pkt ! 240 = 53" "pkt ! 242 = 1"
    using b(2) by (simp_all add: nth_append pkt_def)
  have sc: "scan_options pkt 240 1 = Inr True"
    by (subst scan_options.simps) (simp add: l n)
  have d0: "drop 240 pkt = [53, 1] @ [1] @ ([61, 7, 1] @ mac @ [55, 3, 3, 1, 6] @ [255])"
    using b(2) by (simp add: pkt_def)
  have d1: "drop 243 pkt = [61, 7] @ (1 # mac) @ ([55, 3, 3, 1, 6] @ [255])"
    using b(2) by (simp add: pkt_def)
  have "dhcp_option pkt 240 61 = dhcp_option pkt 243 61"
    by (subst dhcp_option_step' [OF d0, of 243]) simp_all
  also have "\<dots> = Some (1 # mac)"
    by (subst dhcp_option_step' [OF d1, of 252]) (simp_all add: assms)
  finally have o: "dhcp_option pkt 240 61 = Some (1 # mac)" .
  show ?thesis using r l x b(3,4) sc o by (intro exI [of _ pkt]) simp
qed

lemma solicit_message:
  assumes "length tx = 3" "length duid \<le> 65535"
  shows "\<exists>msg options. create_dhcpv6_msg lib ia_id 1 tx duid None None = Inr msg
           \<and> uint (msg ! 0) = 1 \<and> slice msg 1 4 = tx
           \<and> parse_dhcpv6_options msg 4 = Inr options
           \<and> options 1 = Some duid"
proof -
  let ?msg = "[word_of_int 1] @ tx
           @ [0, 1, word_of_int (int (length duid) div 256), word_of_int (int (length duid) mod 256)]
           @ duid @ [0, 8, 0, 2, 0, 0] @ [0, 6, 0, 4, 0, 23, 0, 24]"
  have c: "create_dhcpv6_msg lib ia_id 1 tx duid None None = Inr ?msg"
    by (rule create_dhcpv6_msg_plain) (simp_all add: assms)
  have p: "parse_dhcpv6_options ?msg 4 = Inr [1 \<mapsto> duid, 8 \<mapsto> [0, 0], 6 \<mapsto> [0, 23, 0, 24]]"
    by (rule parse_created_plain [OF assms(1,2)])
  have h: "uint (?msg ! 0) = 1" "slice ?msg 1 4 = tx"
    using assms(1) by (simp_all add: slice_def)
  show ?thesis
    using c p h
    by (intro exI [of _ ?msg] exI [of _ "[1 \<mapsto> duid, 8 \<mapsto> [0, 0], 6 \<mapsto> [0, 23, 0, 24]]"]) simp
qed

text \<open>
  What does survive the round trip. The DISCOVER that \<open>send_dhcp\<close> builds for a six-octet
  hardware address and a transaction id in range holds the packed id at offset 4, and no
  other id in range packs to these four octets; its option 61 is the hardware type 1
  followed by the address; and \<open>wait_for_msg\<close>, waiting for this id and message type 1,
  returns the packet. The SOLICIT that \<open>create_dhcpv6_msg\<close> builds without a prefix hint
  (the first one of the readiness probe) starts with type 1 and the three octets of the
  transaction id, and \<open>parse_dhcpv6_options\<close> finds the DUID under option 1.
\<close>

lemma round_trip_without_prefix_hint:
  assumes "length mac = 6" "0 \<le> xid" "xid \<le> 4294967295"
    and "length transaction_id = 3" "length duid \<le> 65535"
  shows "(\<exists>pkt. send_dhcp lib 1 mac xid None None = Inr (pkt, (''255.255.255.255'', 67))
           \<and> struct_pack [FI] [AInt xid] = Inr (slice pkt 4 8)
           \<and> (\<forall>xid'. 0 \<le> xid' \<and> xid' \<le> 4294967295
                  \<and> struct_pack [FI] [AInt xid'] = Inr (slice pkt 4 8) \<longrightarrow> xid' = xid)
           \<and> dhcp_option pkt 240 61 = Some (1 # mac)
           \<and> wait_for_msg xid 1 (Datagram pkt a # evs) = Ok (Some (pkt, a), evs))
       \<and> (\<exists>msg options. create_dhcpv6_msg lib ia_id 1 transaction_id duid None None = Inr msg
           \<and> uint (msg ! 0) = 1 \<and> slice msg 1 4 = transaction_id
           \<and> parse_dhcpv6_options msg 4 = Inr options
           \<and> options 1 = Some duid)"
proof (rule conjI)
  obtain pkt where p: "send_dhcp lib 1 mac xid None None = Inr (pkt, (''255.255.255.255'', 67))"
    "length pkt = 258" "struct_pack [FI] [AInt xid] = Inr (slice pkt 4 8)"
    "scan_options pkt 240 1 = Inr True" "dhcp_option pkt 240 61 = Some (1 # mac)"
    using discover_packet [OF assms(1-3)] by blast
  have inj: "xid' = xid"
    if "0 \<le> xid' \<and> xid' \<le> 4294967295 \<and> struct_pack [FI] [AInt xid'] = Inr (slice pkt 4 8)"
    for xid'
  proof (rule pack_I_inj)
    show "struct_pack [FI] [AInt xid'] = struct_pack [FI] [AInt xid]"
      using that p(3) by (simp only:)
  qed (use that assms(2,3) in blast)+
  have t: "take 1024 pkt = pkt" using p(2) by simp
  have w: "wait_for_msg xid 1 (Datagram pkt a # evs) = Ok (Some (pkt, a), evs)"
    by (simp only: wait_for_msg.simps Let_def t p(3) p(4) sum.case bool.case
          if_False simp_thms)
  show "\<exists>pkt. send_dhcp lib 1 mac xid None None = Inr (pkt, (''255.255.255.255'', 67))
           \<and> struct_pack [FI] [AInt xid] = Inr (slice pkt 4 8)
           \<and> (\<forall>xid'. 0 \<le> xid' \<and> xid' \<le> 4294967295
                  \<and> struct_pack [FI] [AInt xid'] = Inr (slice pkt 4 8) \<longrightarrow> xid' = xid)
           \<and> dhcp_option pkt 240 61 = Some (1 # mac)
           \<and> wait_for_msg xid 1 (Datagram pkt a # evs) = Ok (Some (pkt, a), evs)"
    using p(1,3,5) inj w by blast
next
  show "\<exists>msg options. create_dhcpv6_msg lib ia_id 1 transaction_id duid None None = Inr msg
           \<and> uint (msg ! 0) = 1 \<and> slice msg 1 4 = transaction_id
           \<and> parse_dhcpv6_options msg 4 = Inr options
           \<and> options 1 = Some duid"
    by (rule solicit_message [OF assms(4,5)])
qed

text \<open>
  C5 (fails for the SOLICIT of a client). \<open>dhcpv6_client_logic\<close> sends its SOLICIT with
  the prefix hint \<open>fd00:1234:5678::\<close>. The claim says that encoding it and decoding the
  result gives back the transaction id and the DUID. There is no result to decode:
  \<open>send_dhcpv6\<close> ends in the \<open>struct.error\<close> of C2. The same call without the hint
  builds a message that does give both back.
\<close>

theorem solicit_with_prefix_hint_is_not_encoded:
  "send_dhcpv6 scenario_lib ''fe80::2'' 7 1 sample_duid [0xab, 0xcd, 0xef] None
       (Some (HStr ''fd00:1234:5678::'')) = Inl StructError
   \<and> (\<exists>msg options.
         send_dhcpv6 scenario_lib ''fe80::2'' 7 1 sample_duid [0xab, 0xcd, 0xef] None None
           = Inr (msg, (''ff02::1:2'', 547))
       \<and> uint (msg ! 0) = 1 \<and> slice msg 1 4 = [0xab, 0xcd, 0xef]
       \<and> parse_dhcpv6_options msg 4 = Inr options \<and> options 1 = Some sample_duid)"
proof -
  have 1: "send_dhcpv6 scenario_lib ''fe80::2'' 7 1 sample_duid [0xab, 0xcd, 0xef] None
       (Some (HStr ''fd00:1234:5678::'')) = Inl StructError"
    by (simp add: send_dhcpv6_def create_dhcpv6_msg_def ia_pd_value_def scenario_lib_def
          sample_duid_def bytes1_def)
  obtain msg options where m:
    "create_dhcpv6_msg scenario_lib 7 1 [0xab, 0xcd, 0xef] sample_duid None None = Inr msg"
    "uint (msg ! 0) = 1" "slice msg 1 4 = [0xab, 0xcd, 0xef]"
    "parse_dhcpv6_options msg 4 = Inr options" "options 1 = Some sample_duid"
    using solicit_message [of "[0xab, 0xcd, 0xef]" sample_duid scenario_lib 7]
    by (auto simp: sample_duid_def)
  have "send_dhcpv6 scenario_lib ''fe80::2'' 7 1 sample_duid [0xab, 0xcd, 0xef] None None
           = Inr (msg, (''ff02::1:2'', 547))"
    by (simp add: send_dhcpv6_def m(1))
  with 1 m show ?thesis by blast
qed

section \<open>The readiness gate\<close>


lemma wait_ready_success:
  assumes "\<forall>(q, d) \<in> set pre. fst (check q) = Ok False \<and> 0 \<le> d"
    and "t + sum_list (map snd pre) < HEALTH_CHECK_TIMEOUT"
    and "fst (check p) = Ok True"
  shows "fst (wait_ready check t (pre @ (p, adv) # post)) = Ok True"
  using assms
proof (induction pre arbitrary: t)
  case Nil
  then show ?case by (cases "check p") auto
next
  case (Cons a pre)
  obtain q d where a: "a = (q, d)" by (cases a)
  obtain ds where c: "check q = (Ok False, ds)"
    using Cons.prems(1) a by (cases "check q") auto
  have "0 \<le> sum_list (map snd pre)"
    using Cons.prems(1) by (intro sum_list_nonneg) auto
  moreover have "0 \<le> d" using Cons.prems(1) a by simp
  ultimately have t: "t < HEALTH_CHECK_TIMEOUT" using Cons.prems(2) a by simp
  have "fst (wait_ready check (t + d) (pre @ (p, adv) # post)) = Ok True"
    using Cons.prems a by (intro Cons.IH) (auto simp: add.assoc)
  then show ?case
    using t by (cases "wait_ready check (t + d) (pre @ (p, adv) # post)") (simp add: a c)
qed

text \<open>
  The loop ends: when every pass takes at least the five seconds of \<open>time.sleep(5)\<close> and
  no probe blocks for ever, six attempts are enough to know its result.
\<close>

lemma wait_ready_ends:
  assumes "\<forall>(p, d) \<in> set attempts. fst (check p) \<noteq> Blocked \<and> 5 \<le> d"
    and "HEALTH_CHECK_TIMEOUT \<le> t + 5 * real (length attempts)"
  shows "fst (wait_ready check t attempts) \<noteq> Blocked"
  using assms
proof (induction attempts arbitrary: t)
  case Nil
  then show ?case by simp
next
  case (Cons a attempts)
  obtain p d where a: "a = (p, d)" by (cases a)
  have ih: "fst (wait_ready check (t + d) attempts) \<noteq> Blocked"
    using Cons.prems a by (intro Cons.IH) (auto simp: algebra_simps)
  obtain r ds where c: "check p = (r, ds)" by (cases "check p")
  have r: "r \<noteq> Blocked" using Cons.prems(1) a c by simp
  show ?case
  proof (cases r)
    case (Ok b)
    then show ?thesis
      using ih by (cases b; cases "wait_ready check (t + d) attempts") (simp_all add: a c)
  next
    case (Raise e)
    then show ?thesis by (simp add: a c)
  next
    case Blocked
    with r show ?thesis by simp
  qed
qed


lemma main_ready:
  assumes "fst (wait_ready (probe lib ip) t0 attempts) = Ok True"
  shows "main lib ip 0 t0 attempts cenv w
           = orchestrated_run lib cenv
               (w\<lparr>sent := sent w @ snd (wait_ready (probe lib ip) t0 attempts)\<rparr>)"
  using assms by (cases "wait_ready (probe lib ip) t0 attempts") (simp add: main_def)


lemma main_v6_ready:
  assumes "fst (wait_ready (probe_v6 lib ip) t0 attempts) = Ok True"
  shows "main_v6 lib ip 0 False t0 attempts cenv w
           = orchestrated_run_v6 lib ip cenv
               (w\<lparr>sent := sent w @ snd (wait_ready (probe_v6 lib ip) t0 attempts)\<rparr>)"
  using assms by (cases "wait_ready (probe_v6 lib ip) t0 attempts") (simp add: main_v6_def)








lemma run_tasks_first_raises:
  "fst (task c w) = Raise e \<Longrightarrow> fst (run_tasks task (c # cs) w) = Raise e"
  by (cases "task c w"; cases "run_tasks task cs (snd (task c w))") simp

lemma clients_from_0: "[0..<TOTAL_CLIENTS] = 0 # [1..<TOTAL_CLIENTS]"
  unfolding TOTAL_CLIENTS_def by (simp add: upt_conv_Cons)

lemma run_clients_first_raises:
  assumes "cenv 0 = (mac, xid, evs)" "fst (dhcp_client_logic lib mac xid evs w) = Raise e"
  shows "fst (run_clients lib cenv w) = Raise e"
  unfolding run_clients_def clients_from_0 list.map
  by (rule run_tasks_first_raises) (simp add: assms)







lemma wait_sample_offer:
  "wait_for_msg 0x11223344 2 (Datagram sample_offer a # evs) = Ok (Some (sample_offer, a), evs)"
proof -
  have l: "length sample_offer = 250" by (simp add: sample_offer_def)
  have s: "slice sample_offer 4 8 = [0x11, 0x22, 0x33, 0x44]"
    by (simp add: sample_offer_def slice_def)
  have n: "sample_offer ! 240 = 53" "sample_offer ! 242 = 2"
    by (simp_all add: sample_offer_def nth_append)
  have sc: "scan_options sample_offer 240 2 = Inr True"
    by (subst scan_options.simps) (simp add: l n)
  show ?thesis by (simp add: l s sc)
qed

lemma probe_sample_offer:
  "fst (probe lib ip (mac, 0x11223344, Datagram sample_offer a # evs)) = Ok True"
proof -
  obtain p where "send_dhcp lib 1 mac 0x11223344 None None = Inr (p, (''255.255.255.255'', 67))"
    using send_dhcp_discover_ok [of "0x11223344" lib mac] by auto
  moreover have "sample_offer \<noteq> []" by (simp add: sample_offer_def)
  ultimately show ?thesis
    by (simp add: probe_def check_dhcp_server_health_def wait_sample_offer
          del: wait_for_msg.simps)
qed


lemma random_duid_sample: "random_duid (fst sample_draws) = Inr sample_duid"
  by (simp add: random_duid_def sample_draws_def sample_duid_def)

lemma probe_v6_sample_advertise:
  "fst (probe_v6 lib ip (sample_draws, Datagram sample_advertise a # evs)) = Ok True"
proof -
  obtain options where w:
    "wait_for_dhcpv6_response [0xab, 0xcd, 0xef] 2 (Datagram sample_advertise a # evs)
       = Ok (Some (sample_advertise, a, options), evs)"
    using wait_sample_advertise by blast
  obtain msg where "create_dhcpv6_msg lib 7 1 [0xab, 0xcd, 0xef] sample_duid None None = Inr msg"
    using create_dhcpv6_msg_plain [of 1 sample_duid None None lib 7 "[0xab, 0xcd, 0xef]"]
    by (auto simp: sample_duid_def)
  then have s: "\<exists>d. send_dhcpv6 lib ip 7 1 sample_duid [0xab, 0xcd, 0xef] None None = Inr d"
    by (simp add: send_dhcpv6_def)
  have n: "sample_advertise \<noteq> []" by (simp add: sample_advertise_def)
  have r: "random_duid (1000000000, 0x1a, 0x2b, 0x3c, 0x4d) = Inr sample_duid"
    using random_duid_sample by (simp add: sample_draws_def)
  show ?thesis
    using s n
    by (auto simp: probe_v6_def check_dhcpv6_server_health_def sample_draws_def r w
          simp del: wait_for_dhcpv6_response.simps)
qed

text \<open>
  Fifty clients that all time out, and what the first DHCPv6 client does with the
  addresses of the scenarios.
\<close>

lemma run_tasks_all_failed:
  assumes "\<forall>c \<in> set cs. \<forall>w. fst (task c w) = Ok ()
             \<and> failed (snd (task c w)) = failed w + 1
             \<and> success (snd (task c w)) = success w
             \<and> clients (snd (task c w)) = clients w"
  shows "fst (run_tasks task cs w) = Ok ()
         \<and> failed (snd (run_tasks task cs w)) = failed w + int (length cs)
         \<and> success (snd (run_tasks task cs w)) = success w
         \<and> clients (snd (run_tasks task cs w)) = clients w"
  using assms
proof (induction cs arbitrary: w)
  case Nil
  then show ?case by simp
next
  case (Cons c cs)
  obtain r w1 where t: "task c w = (r, w1)" by (cases "task c w")
  obtain rs w2 where r: "run_tasks task cs w1 = (rs, w2)" by (cases "run_tasks task cs w1")
  from Cons.prems have "fst (task c w) = Ok () \<and> failed (snd (task c w)) = failed w + 1
      \<and> success (snd (task c w)) = success w \<and> clients (snd (task c w)) = clients w"
    by simp
  then have c: "r = Ok ()" "failed w1 = failed w + 1" "success w1 = success w"
    "clients w1 = clients w"
    by (simp_all add: t)
  have "fst (run_tasks task cs w1) = Ok ()
         \<and> failed (snd (run_tasks task cs w1)) = failed w1 + int (length cs)
         \<and> success (snd (run_tasks task cs w1)) = success w1
         \<and> clients (snd (run_tasks task cs w1)) = clients w1"
    using Cons.prems by (intro Cons.IH) simp
  then show ?case using c by (simp add: t r)
qed

lemma run_clients_all_time_out:
  "fst (run_clients lib (\<lambda>i. (mac, 0x11223344, [Timeout])) w) = Ok ()
   \<and> failed (snd (run_clients lib (\<lambda>i. (mac, 0x11223344, [Timeout])) w)) = failed w + 50
   \<and> success (snd (run_clients lib (\<lambda>i. (mac, 0x11223344, [Timeout])) w)) = success w
   \<and> clients (snd (run_clients lib (\<lambda>i. (mac, 0x11223344, [Timeout])) w)) = clients w"
proof -
  have "\<forall>c \<in> set (map (\<lambda>i. (mac, 0x11223344 :: int, [Timeout])) [0..<TOTAL_CLIENTS]). \<forall>w.
          fst ((\<lambda>(mac, xid, evs). dhcp_client_logic lib mac xid evs) c w) = Ok ()
          \<and> failed (snd ((\<lambda>(mac, xid, evs). dhcp_client_logic lib mac xid evs) c w)) = failed w + 1
          \<and> success (snd ((\<lambda>(mac, xid, evs). dhcp_client_logic lib mac xid evs) c w)) = success w
          \<and> clients (snd ((\<lambda>(mac, xid, evs). dhcp_client_logic lib mac xid evs) c w)) = clients w"
    using dhcp_client_logic_timeout [of "0x11223344" lib mac "[]"] by auto
  from run_tasks_all_failed [OF this, of w]
  show ?thesis by (simp add: run_clients_def TOTAL_CLIENTS_def)
qed





section \<open>Exit status\<close>

lemma handle_exit_status: "snd (handle_exit lib w) = 0" "snd (handle_exit_v6 lib w6) = 0"
  by (simp_all add: handle_exit_eq handle_exit_v6_eq)

lemma orchestrated_run_returns:
  assumes "fst (run_clients lib cenv w1) = Ok u"
  shows "fst (orchestrated_run lib cenv w1) = Exit 0"
  using assms
  by (cases "run_clients lib cenv w1")
     (simp add: orchestrated_run_def handle_exit_eq)

lemma orchestrated_run_v6_returns:
  assumes "fst (run_clients_v6 lib ip cenv w1) = Ok u"
  shows "fst (orchestrated_run_v6 lib ip cenv w1) = Exit 0"
  using assms
  by (cases "run_clients_v6 lib ip cenv w1")
     (simp add: orchestrated_run_v6_def handle_exit_v6_eq)

lemma probe_never_raises: "fst (probe lib ip p) \<noteq> Raise e"
  by (cases p)
     (auto simp: probe_def check_dhcp_server_health_def Let_def
           split: sum.splits res.splits prod.splits)

lemma probe_v6_never_raises: "fst (probe_v6 lib ip p) \<noteq> Raise e"
  by (cases p)
     (auto simp: probe_v6_def check_dhcpv6_server_health_def Let_def
           split: sum.splits res.splits prod.splits)

lemma wait_ready_never_raises:
  assumes "\<And>p e. fst (check p) \<noteq> Raise e"
  shows "fst (wait_ready check t attempts) \<noteq> Raise e"
proof (induction attempts arbitrary: t)
  case Nil
  show ?case by simp
next
  case (Cons a attempts)
  obtain p d where a: "a = (p, d)" by (cases a)
  obtain r ds where c: "check p = (r, ds)" by (cases "check p")
  have r: "\<forall>x. r \<noteq> Raise x" using assms [of p] c by simp
  show ?case
  proof (cases r)
    case (Ok b)
    then show ?thesis
      using Cons.IH [of "t + d"]
      by (cases b; cases "wait_ready check (t + d) attempts") (simp_all add: a c)
  next
    case (Raise x)
    with r show ?thesis by simp
  next
    case Blocked
    then show ?thesis by (simp add: a c)
  qed
qed

lemma orchestrated_run_nonzero:
  assumes "exit_status (fst (orchestrated_run lib cenv w1)) = Some n" "n \<noteq> 0"
  shows "\<exists>e. fst (run_clients lib cenv w1) = Raise e"
proof (cases "fst (run_clients lib cenv w1)")
  case (Ok u)
  then show ?thesis using assms orchestrated_run_returns [of lib cenv w1 u] by simp
next
  case (Raise e)
  then show ?thesis by simp
next
  case Blocked
  then show ?thesis
    using assms by (cases "run_clients lib cenv w1") (simp add: orchestrated_run_def)
qed

lemma orchestrated_run_v6_nonzero:
  assumes "exit_status (fst (orchestrated_run_v6 lib ip cenv w1)) = Some n" "n \<noteq> 0"
  shows "\<exists>e. fst (run_clients_v6 lib ip cenv w1) = Raise e"
proof (cases "fst (run_clients_v6 lib ip cenv w1)")
  case (Ok u)
  then show ?thesis using assms orchestrated_run_v6_returns [of lib ip cenv w1 u] by simp
next
  case (Raise e)
  then show ?thesis by simp
next
  case Blocked
  then show ?thesis
    using assms by (cases "run_clients_v6 lib ip cenv w1") (simp add: orchestrated_run_v6_def)
qed

text \<open>
  What does hold of the exit status. \<open>handle_exit\<close> ends with status 0 in every state,
  whatever the counters say, and a run whose client transactions all return ends
  through it with status 0. If the script ends with another status, then the privilege
  check failed, or the readiness loop gave up, or an exception left a client transaction
  of the run.
\<close>

lemma main_nonzero:
  assumes "exit_status (fst (main lib ip euid t0 attempts cenv w)) = Some n" "n \<noteq> 0"
  shows "euid \<noteq> 0 \<or> fst (wait_ready (probe lib ip) t0 attempts) = Ok False
         \<or> (\<exists>e. fst (run_clients lib cenv
                        (w\<lparr>sent := sent w @ snd (wait_ready (probe lib ip) t0 attempts)\<rparr>))
                  = Raise e)"
proof (cases "euid = 0")
  case False
  then show ?thesis by simp
next
  case True
  obtain r ds where wr: "wait_ready (probe lib ip) t0 attempts = (r, ds)"
    by (cases "wait_ready (probe lib ip) t0 attempts")
  have nr: "r \<noteq> Raise e" for e
    using wait_ready_never_raises [where check = "probe lib ip" and e = e and t = t0
        and attempts = attempts] probe_never_raises wr
    by simp
  show ?thesis
  proof (cases r)
    case (Ok b)
    show ?thesis
    proof (cases b)
      case True
      with Ok wr \<open>euid = 0\<close> assms
      have "exit_status (fst (orchestrated_run lib cenv (w\<lparr>sent := sent w @ ds\<rparr>))) = Some n"
        by (simp add: main_def)
      from orchestrated_run_nonzero [OF this assms(2)] show ?thesis by (simp add: wr)
    next
      case False
      with Ok wr show ?thesis by simp
    qed
  next
    case (Raise e)
    with nr [of e] show ?thesis by simp
  next
    case Blocked
    with wr \<open>euid = 0\<close> assms show ?thesis by (simp add: main_def)
  qed
qed

lemma main_v6_nonzero:
  assumes "exit_status (fst (main_v6 lib ip euid debug t0 attempts cenv w)) = Some n" "n \<noteq> 0"
  shows "euid \<noteq> 0 \<or> fst (wait_ready (probe_v6 lib ip) t0 attempts) = Ok False
         \<or> (\<exists>e. fst (run_clients_v6 lib ip cenv
                        (w\<lparr>sent := sent w @ snd (wait_ready (probe_v6 lib ip) t0 attempts)\<rparr>))
                  = Raise e)"
proof (cases "euid = 0")
  case False
  then show ?thesis by simp
next
  case True
  show ?thesis
  proof (cases debug)
    case True
    with \<open>euid = 0\<close> assms show ?thesis by (simp add: main_v6_def)
  next
    case False
    obtain r ds where wr: "wait_ready (probe_v6 lib ip) t0 attempts = (r, ds)"
      by (cases "wait_ready (probe_v6 lib ip) t0 attempts")
    have nr: "r \<noteq> Raise e" for e
      using wait_ready_never_raises [where check = "probe_v6 lib ip" and e = e and t = t0
          and attempts = attempts] probe_v6_never_raises wr
      by simp
    show ?thesis
    proof (cases r)
      case (Ok b)
      show ?thesis
      proof (cases b)
        case True
        with Ok wr \<open>euid = 0\<close> \<open>\<not> debug\<close> assms
        have "exit_status (fst (orchestrated_run_v6 lib ip cenv (w\<lparr>sent := sent w @ ds\<rparr>)))
                = Some n"
          by (simp add: main_v6_def)
        from orchestrated_run_v6_nonzero [OF this assms(2)] show ?thesis by (simp add: wr)
      next
        case False
        with Ok wr show ?thesis by simp
      qed
    next
      case (Raise e)
      with nr [of e] show ?thesis by simp
    next
      case Blocked
      with wr \<open>euid = 0\<close> \<open>\<not> debug\<close> assms show ?thesis by (simp add: main_v6_def)
    qed
  qed
qed

lemma run_tasks_all_raise:
  assumes "\<forall>c \<in> set cs. \<exists>e. task c w = (Raise e, w)" "cs \<noteq> []"
  shows "\<exists>e. run_tasks task cs w = (Raise e, w)"
  using assms
proof (induction cs)
  case Nil
  then show ?case by simp
next
  case (Cons c cs)
  obtain e where e: "task c w = (Raise e, w)" using Cons.prems(1) by auto
  show ?case
  proof (cases "cs = []")
    case True
    then show ?thesis by (simp add: e)
  next
    case False
    then obtain e' where "run_tasks task cs w = (Raise e', w)"
      using Cons by auto
    then show ?thesis by (simp add: e)
  qed
qed

lemma run_clients_v6_raises: "\<exists>e. run_clients_v6 lib ip cenv w = (Raise e, w)"
proof -
  have "\<forall>c \<in> set (map cenv [0..<TOTAL_CLIENTS]).
          \<exists>e. (\<lambda>(draws, evs). dhcpv6_client_logic lib ip draws evs) c w = (Raise e, w)"
    using dhcpv6_client_logic_raises by (auto simp: split_def)
  moreover have "map cenv [0..<TOTAL_CLIENTS] \<noteq> []" by (simp add: TOTAL_CLIENTS_def)
  ultimately show ?thesis
    unfolding run_clients_v6_def by (rule run_tasks_all_raise)
qed

text \<open>
  Fifty clients that all time out: the script prints 0 leases and 50 failures, and the
  status is 0.
\<close>

lemma all_failed_run_exits_zero:
  "fst (orchestrated_run scenario_lib (\<lambda>i. (sample_mac, 0x11223344, [Timeout])) world0) = Exit 0
   \<and> failed (snd (run_clients scenario_lib (\<lambda>i. (sample_mac, 0x11223344, [Timeout])) world0)) = 50
   \<and> success (snd (run_clients scenario_lib (\<lambda>i. (sample_mac, 0x11223344, [Timeout])) world0)) = 0"
proof -
  let ?cenv = "\<lambda>i :: nat. (sample_mac, 0x11223344 :: int, [Timeout])"
  let ?w = "world0 :: lease world"
  have r: "fst (run_clients scenario_lib ?cenv ?w) = Ok ()"
    "failed (snd (run_clients scenario_lib ?cenv ?w)) = 50"
    "success (snd (run_clients scenario_lib ?cenv ?w)) = 0"
    using run_clients_all_time_out [of scenario_lib sample_mac ?w] by (simp_all add: world0_def)
  from orchestrated_run_returns [OF r(1)] r show ?thesis by simp
qed

lemma orchestrated_run_raises:
  assumes "cenv 0 = (mac, xid, evs)" "fst (dhcp_client_logic lib mac xid evs w) = Raise e"
  shows "fst (orchestrated_run lib cenv w) = Uncaught e"
  using run_clients_first_raises [of cenv mac xid evs lib w e] assms
  by (cases "run_clients lib cenv w") (simp add: orchestrated_run_def)

text \<open>
  C10 (fails). The claim says that the script ends with a status other than 0 only when
  the readiness probe fails or the user is not root. Both scripts, run as root with a
  server that answers the probe, end with status 1 when an exception leaves a client
  transaction, which nothing catches: the DHCPv6 script with every client (each SOLICIT
  ends in the \<open>struct.error\<close> of C2), the DHCPv4 script when the first client receives
  \<open>truncated_offer\<close> (the \<open>IndexError\<close> of C1) while the others time out.
\<close>

theorem crashed_run_exits_nonzero:
  "exit_status (fst (main_v6 scenario_lib ''fe80::2'' 0 False 0
      [((sample_draws, [Datagram sample_advertise (''fe80::1c'', 547)]), 1)]
      (\<lambda>i. (sample_draws, [])) world0)) = Some 1
   \<and> fst (wait_ready (probe_v6 scenario_lib ''fe80::2'') 0
      [((sample_draws, [Datagram sample_advertise (''fe80::1c'', 547)]), 1)]) = Ok True
   \<and> exit_status (fst (main scenario_lib ''10.0.0.1'' 0 0
      [((sample_mac, 0x11223344, [Datagram sample_offer (''10.0.0.1'', 67)]), 1)]
      (\<lambda>i. (sample_mac, 0x11223344,
              if i = 0 then [Datagram truncated_offer (''10.0.0.1'', 67)] else [Timeout]))
      world0)) = Some 1
   \<and> fst (wait_ready (probe scenario_lib ''10.0.0.1'') 0
      [((sample_mac, 0x11223344, [Datagram sample_offer (''10.0.0.1'', 67)]), 1)]) = Ok True"
proof -
  let ?as = "[((sample_draws, [Datagram sample_advertise (''fe80::1c'', 547)]), 1 :: real)]"
  have r: "fst (wait_ready (probe_v6 scenario_lib ''fe80::2'') 0 ?as) = Ok True"
    using wait_ready_success [where pre = "[]" and check = "probe_v6 scenario_lib ''fe80::2''"
        and t = 0 and p = "(sample_draws, [Datagram sample_advertise (''fe80::1c'', 547)])"
        and adv = 1 and post = "[]"]
    by (simp add: probe_v6_sample_advertise HEALTH_CHECK_TIMEOUT_def)
  obtain e where "run_clients_v6 scenario_lib ''fe80::2'' (\<lambda>i. (sample_draws, []))
        ((world0 :: lease6 world)\<lparr>sent := sent (world0 :: lease6 world)
            @ snd (wait_ready (probe_v6 scenario_lib ''fe80::2'') 0 ?as)\<rparr>)
      = (Raise e, (world0 :: lease6 world)\<lparr>sent := sent (world0 :: lease6 world)
            @ snd (wait_ready (probe_v6 scenario_lib ''fe80::2'') 0 ?as)\<rparr>)"
    using run_clients_v6_raises by blast
  then have 6: "exit_status (fst (main_v6 scenario_lib ''fe80::2'' 0 False 0 ?as
      (\<lambda>i. (sample_draws, [])) world0)) = Some 1"
    by (simp add: main_v6_ready [OF r] orchestrated_run_v6_def)
  let ?as4 = "[((sample_mac, 0x11223344 :: int, [Datagram sample_offer (''10.0.0.1'', 67)]), 1 :: real)]"
  let ?cenv = "\<lambda>i :: nat. (sample_mac, 0x11223344 :: int,
              if i = 0 then [Datagram truncated_offer (''10.0.0.1'', 67)] else [Timeout])"
  have r4: "fst (wait_ready (probe scenario_lib ''10.0.0.1'') 0 ?as4) = Ok True"
    using wait_ready_success [where pre = "[]" and check = "probe scenario_lib ''10.0.0.1''"
        and t = 0 and p = "(sample_mac, 0x11223344, [Datagram sample_offer (''10.0.0.1'', 67)])"
        and adv = 1 and post = "[]"]
    by (simp add: probe_sample_offer HEALTH_CHECK_TIMEOUT_def)
  have "fst (dhcp_client_logic scenario_lib sample_mac 0x11223344
               [Datagram truncated_offer (''10.0.0.1'', 67)] w) = Raise IndexError" for w
    using dhcp_client_logic_truncated [of scenario_lib sample_mac "(''10.0.0.1'', 67)" "[]" w]
    by auto
  then have "fst (orchestrated_run scenario_lib ?cenv w) = Uncaught IndexError" for w
    by (intro orchestrated_run_raises [of ?cenv sample_mac "0x11223344"
          "[Datagram truncated_offer (''10.0.0.1'', 67)]"]) simp_all
  then have 4: "exit_status (fst (main scenario_lib ''10.0.0.1'' 0 0 ?as4 ?cenv world0)) = Some 1"
    by (simp add: main_ready [OF r4])
  from 6 r 4 r4 show ?thesis by simp
qed

section \<open>Counters and registry per transaction\<close>
























end
